theory Spec2Isabelle
  imports Complex_Main
begin

section \<open>Numbers\<close>

text \<open>
  A JavaScript number is an IEEE 754 double.  A finite double is given by the rational it
  denotes; the two infinities and NaN are values of their own.  The sign of zero is not
  kept: no handler of this repository can observe it.  Every arithmetic operation of the
  handlers is the exact operation followed by \<open>round_double\<close>, rounding to the nearest
  double with ties to the even significand, as the standard defines addition and
  multiplication.
\<close>

datatype jsnum = Fin rat | PosInf | NegInf | NaN

text \<open>\<open>ilog2 n\<close> is the integer part of the binary logarithm of \<open>n \<ge> 1\<close>.\<close>

function ilog2 :: "int \<Rightarrow> int" where
  "ilog2 n = (if n \<le> 1 then 0 else 1 + ilog2 (n div 2))"
  by pat_completeness auto
termination
  by (relation "measure nat") auto

declare ilog2.simps [simp del]

text \<open>The integer part of the binary logarithm of a positive rational.\<close>

definition floor_log2 :: "rat \<Rightarrow> int" where
  "floor_log2 x =
     (if 1 \<le> x then ilog2 \<lfloor>x\<rfloor>
      else if \<lceil>1 / x\<rceil> \<le> 1 then 0
      else - (1 + ilog2 (\<lceil>1 / x\<rceil> - 1)))"

definition pow2 :: "int \<Rightarrow> rat" where
  "pow2 k = (if 0 \<le> k then 2 ^ nat k else 1 / 2 ^ nat (- k))"

definition round_half_even :: "rat \<Rightarrow> int" where
  "round_half_even y =
     (if y - of_int \<lfloor>y\<rfloor> < 1 / 2 then \<lfloor>y\<rfloor>
      else if 1 / 2 < y - of_int \<lfloor>y\<rfloor> then \<lfloor>y\<rfloor> + 1
      else if even \<lfloor>y\<rfloor> then \<lfloor>y\<rfloor>
      else \<lfloor>y\<rfloor> + 1)"

text \<open>
  A positive rational rounded to 53 significant bits, or to a multiple of \<open>2^-1074\<close> in
  the subnormal range.
\<close>

definition round_magnitude :: "rat \<Rightarrow> rat" where
  "round_magnitude a =
     of_int (round_half_even (a / pow2 (max (floor_log2 a - 52) (- 1074))))
       * pow2 (max (floor_log2 a - 52) (- 1074))"

definition round_double :: "rat \<Rightarrow> jsnum" where
  "round_double x =
     (if x = 0 then Fin 0
      else if pow2 1024 \<le> round_magnitude \<bar>x\<bar> then (if 0 < x then PosInf else NegInf)
      else Fin (if 0 < x then round_magnitude \<bar>x\<bar> else - round_magnitude \<bar>x\<bar>))"

fun sign_of :: "jsnum \<Rightarrow> int" where
  "sign_of (Fin x) = (if 0 < x then 1 else if x < 0 then - 1 else 0)"
| "sign_of PosInf = 1"
| "sign_of NegInf = - 1"
| "sign_of NaN = 0"

fun is_finite :: "jsnum \<Rightarrow> bool" where
  "is_finite (Fin x) = True"
| "is_finite a = False"

text \<open>\<open>a + b\<close>.\<close>

definition js_add :: "jsnum \<Rightarrow> jsnum \<Rightarrow> jsnum" where
  "js_add a b =
     (case a of
        Fin x \<Rightarrow> (case b of Fin y \<Rightarrow> round_double (x + y) | b' \<Rightarrow> b')
      | NaN \<Rightarrow> NaN
      | PosInf \<Rightarrow> (if b = NaN \<or> b = NegInf then NaN else PosInf)
      | NegInf \<Rightarrow> (if b = NaN \<or> b = PosInf then NaN else NegInf))"

text \<open>\<open>a * b\<close>: with an infinite factor the product is infinite, or NaN when the other is 0.\<close>

definition js_mul :: "jsnum \<Rightarrow> jsnum \<Rightarrow> jsnum" where
  "js_mul a b =
     (if a = NaN \<or> b = NaN then NaN
      else if is_finite a \<and> is_finite b
      then (case a of Fin x \<Rightarrow> (case b of Fin y \<Rightarrow> round_double (x * y) | b' \<Rightarrow> NaN) | a' \<Rightarrow> NaN)
      else if sign_of a * sign_of b = 0 then NaN
      else if 0 < sign_of a * sign_of b then PosInf
      else NegInf)"

text \<open>\<open>a < b\<close> and \<open>a >= b\<close>: comparisons are exact, and false when either side is NaN.\<close>

definition js_lt :: "jsnum \<Rightarrow> jsnum \<Rightarrow> bool" where
  "js_lt a b =
     (case a of
        Fin x \<Rightarrow> (case b of Fin y \<Rightarrow> x < y | PosInf \<Rightarrow> True | b' \<Rightarrow> False)
      | NegInf \<Rightarrow> (b \<noteq> NaN \<and> b \<noteq> NegInf)
      | a' \<Rightarrow> False)"

definition js_ge :: "jsnum \<Rightarrow> jsnum \<Rightarrow> bool" where
  "js_ge a b = (a \<noteq> NaN \<and> b \<noteq> NaN \<and> \<not> js_lt a b)"

text \<open>A number is truthy unless it is 0 or NaN.\<close>

definition truthy_num :: "jsnum \<Rightarrow> bool" where
  "truthy_num a = (a \<noteq> Fin 0 \<and> a \<noteq> NaN)"

section \<open>Values of a JSON request body\<close>

text \<open>
  The order routes read \<open>req.body\<close> as parsed by \<open>express.json\<close>: any JSON value, with
  \<open>undefined\<close> for an absent property.  The number of a parsed body is a double that is
  not NaN.  An object is an association list read with \<open>map_of\<close>.
\<close>

datatype jsval =
    JUndef
  | JNull
  | JBool bool
  | JNum jsnum
  | JStr string
  | JArr "jsval list"
  | JObj "(string \<times> jsval) list"

text \<open>\<open>!v\<close> is \<open>\<not> truthy v\<close>.\<close>

fun truthy :: "jsval \<Rightarrow> bool" where
  "truthy JUndef = False"
| "truthy JNull = False"
| "truthy (JBool b) = b"
| "truthy (JNum n) = truthy_num n"
| "truthy (JStr s) = (s \<noteq> [])"
| "truthy (JArr xs) = True"
| "truthy (JObj kvs) = True"

fun nullish :: "jsval \<Rightarrow> bool" where
  "nullish JUndef = True"
| "nullish JNull = True"
| "nullish v = False"

text \<open>
  \<open>v.k\<close> for a value that is neither \<open>undefined\<close> nor \<open>null\<close>, for the property names
  the routes read (\<open>length\<close> exists on strings and arrays, nothing else on a primitive).
  Reading a property of \<open>undefined\<close> or \<open>null\<close> throws a TypeError: the handlers below
  test \<open>nullish\<close> wherever that can happen.  The length of a string is only compared with
  0, so the unit in which it is counted does not matter.
\<close>

fun prop_of :: "jsval \<Rightarrow> string \<Rightarrow> jsval" where
  "prop_of (JObj kvs) k = (case map_of kvs k of None \<Rightarrow> JUndef | Some v \<Rightarrow> v)"
| "prop_of (JArr xs) k = (if k = ''length'' then JNum (Fin (of_nat (length xs))) else JUndef)"
| "prop_of (JStr s) k = (if k = ''length'' then JNum (Fin (of_nat (length s))) else JUndef)"
| "prop_of v k = JUndef"

section \<open>What the handlers call\<close>

text \<open>
  The handlers use functions that this repository does not define.  From mongoose:
  \<open>ObjectId.isValid\<close> and \<open>MenuItem.findById\<close>, which returns a document or \<open>null\<close>, or
  throws a CastError for an identifier it cannot turn into an ObjectId.  From the language:
  the conversion of a string to a number, the conversion of an array or object to a string
  (both inside \<open>ToNumber\<close>), \<open>String.prototype.trim\<close>, \<open>String.prototype.toLowerCase\<close> and the
  \<open>length\<close> of a string in UTF-16 code units.  They are parameters: every theorem below
  holds whatever they compute.
\<close>

record menu_item =
  mi_id :: string
  mi_name :: string
  mi_price :: jsnum
  mi_image :: string
  mi_isAvailable :: bool

datatype lookup = Document menu_item | Null | ThrowsCastError

record env =
  isValid :: "jsval \<Rightarrow> bool"
  findById :: "jsval \<Rightarrow> lookup"
  stringToNumber :: "string \<Rightarrow> jsnum"
  objectToString :: "jsval \<Rightarrow> string"
  trim :: "string \<Rightarrow> string"
  toLowerCase :: "string \<Rightarrow> string"
  codeUnits :: "string \<Rightarrow> nat"

fun to_number :: "env \<Rightarrow> jsval \<Rightarrow> jsnum" where
  "to_number e JUndef = NaN"
| "to_number e JNull = Fin 0"
| "to_number e (JBool b) = Fin (if b then 1 else 0)"
| "to_number e (JNum n) = n"
| "to_number e (JStr s) = stringToNumber e s"
| "to_number e v = stringToNumber e (objectToString e v)"

section \<open>Strings\<close>

definition digit_char :: "nat \<Rightarrow> char" where
  "digit_char d = ''0123456789'' ! d"

text \<open>\<open>Number.prototype.toString\<close> on a non-negative integer.\<close>

fun toString :: "nat \<Rightarrow> string" where
  "toString n = (if n < 10 then [digit_char n] else toString (n div 10) @ [digit_char (n mod 10)])"

declare toString.simps [simp del]

text \<open>\<open>s.slice(-k)\<close>: the last \<open>k\<close> characters, all of \<open>s\<close> when it is shorter.\<close>

definition slice_last :: "nat \<Rightarrow> string \<Rightarrow> string" where
  "slice_last k s = drop (length s - k) s"

definition padStart :: "nat \<Rightarrow> char \<Rightarrow> string \<Rightarrow> string" where
  "padStart w c s = replicate (w - length s) c @ s"

section \<open>The Order model\<close>

record order_item =
  oi_menuItem :: string
  oi_name :: string
  oi_price :: jsnum
  oi_quantity :: jsnum
  oi_image :: string

record customer =
  c_name :: string
  c_email :: string
  c_phone :: string

record address =
  a_street :: string
  a_area :: string
  a_city :: string
  a_pincode :: string
  a_landmark :: string

record order =
  orderNumber :: string
  customer :: customer
  deliveryAddress :: address
  items :: "order_item list"
  subtotal :: jsnum
  deliveryFee :: jsnum
  total :: jsnum
  paymentMethod :: string
  status :: string
  specialInstructions :: string
  estimatedDeliveryTime :: "nat option"
  actualDeliveryTime :: "nat option"
  createdAt :: nat
  updatedAt :: nat

text \<open>
  The \<open>pre('save')\<close> hook of the schema on a new document: \<open>count\<close> is \<open>countDocuments()\<close>,
  \<open>now\<close> is \<open>Date.now()\<close> in milliseconds.  One request reads the clock several times
  (the defaults of \<open>createdAt\<close> and \<open>updatedAt\<close>, and three times in the hook); the readings
  of one request are taken to be the same.  The collection is a list of orders, oldest
  first, and \<open>countDocuments()\<close> is its length.
\<close>

definition gen_orderNumber :: "nat \<Rightarrow> nat \<Rightarrow> string" where
  "gen_orderNumber now count =
     ''CA'' @ slice_last 6 (toString now) @ padStart 3 (CHR ''0'') (toString (count + 1))"

definition pre_save :: "nat \<Rightarrow> nat \<Rightarrow> order \<Rightarrow> order" where
  "pre_save now count doc =
     doc\<lparr>orderNumber := gen_orderNumber now count,
         estimatedDeliveryTime := Some (now + 45 * 60 * 1000),
         updatedAt := now\<rparr>"

section \<open>POST /api/orders\<close>

text \<open>
  The failures of the order routes.  A constructor carries what the handler puts into its
  message: the offending \<open>menuItemId\<close>, the \<open>name\<close> the client sent, or the name of the
  menu item found.  The last three of the first group are the branches of the \<open>catch\<close>:
  a ValidationError of the schema (400), a CastError (400, "Invalid data format
  provided"), and every other exception (500).
\<close>

datatype error =
    MissingFields
  | MissingCustomerFields
  | MissingAddressFields
  | InvalidItemId jsval
  | ItemNotFound jsval
  | ItemUnavailable string
  | InvalidQuantity string
  | ValidationError
  | CastError
  | ServerError
  | InvalidStatus
  | NotFound

fun http_status :: "error \<Rightarrow> nat" where
  "http_status ServerError = 500"
| "http_status NotFound = 404"
| "http_status e = 400"

text \<open>The three presence checks that come before the loop over the items.\<close>

definition required_fields :: "jsval \<Rightarrow> jsval \<Rightarrow> jsval \<Rightarrow> error option" where
  "required_fields cust addr its =
     (if \<not> truthy cust \<or> \<not> truthy addr \<or> \<not> truthy its \<or> prop_of its ''length'' = JNum (Fin 0)
      then Some MissingFields
      else if \<not> truthy (prop_of cust ''name'') \<or> \<not> truthy (prop_of cust ''email'')
              \<or> \<not> truthy (prop_of cust ''phone'')
      then Some MissingCustomerFields
      else if \<not> truthy (prop_of addr ''street'') \<or> \<not> truthy (prop_of addr ''area'')
              \<or> \<not> truthy (prop_of addr ''pincode'')
      then Some MissingAddressFields
      else None)"

text \<open>\<open>for (const item of items)\<close>: an array or a string is iterable, nothing else in JSON.\<close>

fun iterate :: "jsval \<Rightarrow> jsval list option" where
  "iterate (JArr xs) = Some xs"
| "iterate (JStr s) = Some (map (\<lambda>c. JStr [c]) s)"
| "iterate v = None"

text \<open>An element pushed onto \<open>validatedItems\<close>; the quantity is still the client's value.\<close>

record validated_item =
  vi_menuItem :: string
  vi_name :: string
  vi_price :: jsnum
  vi_quantity :: jsval
  vi_image :: string

text \<open>
  The checks of the loop body on one item, in the order of the handler; an item that passes
  yields the menu item it resolves to.  Reading a property of \<open>null\<close> throws a TypeError,
  and \<open>findById\<close> may throw its CastError.
\<close>

definition validate_item :: "env \<Rightarrow> jsval \<Rightarrow> error + menu_item" where
  "validate_item e item =
     (if nullish item then Inl ServerError
      else if \<not> truthy (prop_of item ''menuItemId'') \<or> \<not> isValid e (prop_of item ''menuItemId'')
      then Inl (InvalidItemId (prop_of item ''menuItemId''))
      else case findById e (prop_of item ''menuItemId'') of
        ThrowsCastError \<Rightarrow> Inl CastError
      | Null \<Rightarrow> Inl (ItemNotFound (prop_of item ''name''))
      | Document m \<Rightarrow>
          if \<not> mi_isAvailable m then Inl (ItemUnavailable (mi_name m))
          else if \<not> truthy (prop_of item ''quantity'')
                  \<or> js_lt (to_number e (prop_of item ''quantity'')) (Fin 1)
          then Inl (InvalidQuantity (mi_name m))
          else Inr m)"

text \<open>\<open>itemTotal = menuItem.price * item.quantity\<close> and the element pushed.\<close>

definition itemTotal :: "env \<Rightarrow> menu_item \<Rightarrow> jsval \<Rightarrow> jsnum" where
  "itemTotal e m item = js_mul (mi_price m) (to_number e (prop_of item ''quantity''))"

definition snapshot :: "menu_item \<Rightarrow> jsval \<Rightarrow> validated_item" where
  "snapshot m item =
     \<lparr>vi_menuItem = mi_id m, vi_name = mi_name m, vi_price = mi_price m,
      vi_quantity = prop_of item ''quantity'', vi_image = mi_image m\<rparr>"

text \<open>The loop, with \<open>subtotal\<close> and \<open>validatedItems\<close> as accumulators.\<close>

fun process_items ::
  "env \<Rightarrow> jsval list \<Rightarrow> jsnum \<Rightarrow> validated_item list \<Rightarrow> error + (jsnum \<times> validated_item list)"
where
  "process_items e [] sub acc = Inr (sub, acc)"
| "process_items e (item # rest) sub acc =
     (case validate_item e item of
        Inl err \<Rightarrow> Inl err
      | Inr m \<Rightarrow> process_items e rest (js_add sub (itemTotal e m item)) (acc @ [snapshot m item]))"

text \<open>\<open>subtotal >= 300 ? 0 : 30\<close>.\<close>

definition delivery_fee :: "jsnum \<Rightarrow> jsnum" where
  "delivery_fee sub = (if js_ge sub (Fin 300) then Fin 0 else Fin 30)"

text \<open>\<open>v.trim()\<close> throws unless \<open>v\<close> is a string; \<open>v?.trim() || d\<close> yields \<open>d\<close> on a nullish \<open>v\<close>.\<close>

fun method_trim :: "env \<Rightarrow> jsval \<Rightarrow> string option" where
  "method_trim e (JStr s) = Some (trim e s)"
| "method_trim e v = None"

fun opt_trim :: "env \<Rightarrow> jsval \<Rightarrow> string \<Rightarrow> string option" where
  "opt_trim e (JStr s) d = Some (if trim e s = [] then d else trim e s)"
| "opt_trim e JUndef d = Some d"
| "opt_trim e JNull d = Some d"
| "opt_trim e v d = None"

definition normalize_customer :: "env \<Rightarrow> jsval \<Rightarrow> customer option" where
  "normalize_customer e cust =
     (case method_trim e (prop_of cust ''name'') of None \<Rightarrow> None | Some n \<Rightarrow>
     (case method_trim e (prop_of cust ''email'') of None \<Rightarrow> None | Some em \<Rightarrow>
     (case method_trim e (prop_of cust ''phone'') of None \<Rightarrow> None | Some ph \<Rightarrow>
        Some \<lparr>c_name = n, c_email = toLowerCase e em, c_phone = ph\<rparr>)))"

definition normalize_address :: "env \<Rightarrow> jsval \<Rightarrow> address option" where
  "normalize_address e addr =
     (case method_trim e (prop_of addr ''street'') of None \<Rightarrow> None | Some st \<Rightarrow>
     (case method_trim e (prop_of addr ''area'') of None \<Rightarrow> None | Some ar \<Rightarrow>
     (case opt_trim e (prop_of addr ''city'') ''Ahmedabad'' of None \<Rightarrow> None | Some ci \<Rightarrow>
     (case method_trim e (prop_of addr ''pincode'') of None \<Rightarrow> None | Some pin \<Rightarrow>
     (case opt_trim e (prop_of addr ''landmark'') [] of None \<Rightarrow> None | Some lm \<Rightarrow>
        Some \<lparr>a_street = st, a_area = ar, a_city = ci, a_pincode = pin,
               a_landmark = lm\<rparr>)))))"

text \<open>
  The schema's cast of a \<open>Number\<close> path (mongoose): a number, a boolean or a non-empty
  numeric string; anything else, and NaN, is an error of the document (\<open>None\<close>).
\<close>

definition not_NaN :: "jsnum \<Rightarrow> jsnum option" where
  "not_NaN n = (if n = NaN then None else Some n)"

fun cast_number :: "env \<Rightarrow> jsval \<Rightarrow> jsnum option" where
  "cast_number e (JNum n) = not_NaN n"
| "cast_number e (JBool b) = Some (Fin (if b then 1 else 0))"
| "cast_number e (JStr s) = (if s = [] then None else not_NaN (stringToNumber e s))"
| "cast_number e v = None"

text \<open>\<open>orderItemSchema\<close>: name, price and quantity required, quantity at least 1.\<close>

definition cast_item :: "env \<Rightarrow> validated_item \<Rightarrow> order_item option" where
  "cast_item e v =
     (case cast_number e (vi_quantity v) of
        None \<Rightarrow> None
      | Some q \<Rightarrow>
          if vi_name v = [] \<or> vi_price v = NaN \<or> \<not> js_ge q (Fin 1) then None
          else Some \<lparr>oi_menuItem = vi_menuItem v, oi_name = vi_name v, oi_price = vi_price v,
                     oi_quantity = q, oi_image = vi_image v\<rparr>)"

text \<open>
  \<open>new Order({...})\<close> followed by the validation that \<open>save\<close> runs first: the required
  strings are non-empty, the three amounts are numbers (not NaN) and not below 0, the
  instructions have at most 500 code units.  \<open>None\<close> is the ValidationError.  The defaults
  of the schema give \<open>paymentMethod\<close>, \<open>status\<close>, \<open>createdAt\<close> and \<open>updatedAt\<close>.  The schema
  trims and lower-cases the strings once more; both functions are idempotent in the
  language, so the second application is left out.
\<close>

definition new_order ::
  "env \<Rightarrow> nat \<Rightarrow> customer \<Rightarrow> address \<Rightarrow> validated_item list \<Rightarrow> jsnum \<Rightarrow> jsnum \<Rightarrow> jsnum
     \<Rightarrow> string \<Rightarrow> order option"
where
  "new_order e now cust addr vis sub fee tot instr =
     (case those (map (cast_item e) vis) of None \<Rightarrow> None | Some its \<Rightarrow>
        if c_name cust = [] \<or> c_email cust = [] \<or> c_phone cust = []
           \<or> a_street addr = [] \<or> a_area addr = [] \<or> a_city addr = [] \<or> a_pincode addr = []
           \<or> \<not> js_ge sub (Fin 0) \<or> \<not> js_ge fee (Fin 0) \<or> \<not> js_ge tot (Fin 0)
           \<or> 500 < codeUnits e instr
        then None
        else Some \<lparr>orderNumber = [], customer = cust, deliveryAddress = addr, items = its,
                   subtotal = sub, deliveryFee = fee, total = tot, paymentMethod = ''cod'',
                   status = ''pending'', specialInstructions = instr,
                   estimatedDeliveryTime = None, actualDeliveryTime = None,
                   createdAt = now, updatedAt = now\<rparr>)"

text \<open>
  \<open>save\<close> of a new document into the collection (a list, oldest first): the hook, then the
  insert, which the unique index on \<open>orderNumber\<close> refuses for a number already stored.
\<close>

definition save :: "nat \<Rightarrow> order \<Rightarrow> order list \<Rightarrow> error + (order \<times> order list)" where
  "save now doc store =
     (let saved = pre_save now (length store) doc
      in if orderNumber saved \<in> set (map orderNumber store) then Inl ServerError
         else Inr (saved, store @ [saved]))"

text \<open>
  The handler of \<open>POST /\<close>.  It returns the response (an error with its status, or the
  data handed to the 201 response) and the collection afterwards.  Every exception thrown
  inside the \<open>try\<close> ends in the 500 branch of the \<open>catch\<close>, except the ValidationError of
  the schema and the CastError of the lookup; the confirmation email is sent after the
  order is stored and its failure is swallowed, so it has no part in the result.
\<close>

record receipt =
  r_orderNumber :: string
  r_total :: jsnum
  r_estimatedDeliveryTime :: "nat option"
  r_status :: string

definition create_order ::
  "env \<Rightarrow> nat \<Rightarrow> jsval \<Rightarrow> order list \<Rightarrow> (error + receipt) \<times> order list"
where
  "create_order e now body store =
     (if nullish body then (Inl ServerError, store)
      else case required_fields (prop_of body ''customer'') (prop_of body ''deliveryAddress'')
                  (prop_of body ''items'') of
        Some err \<Rightarrow> (Inl err, store)
      | None \<Rightarrow>
      (case iterate (prop_of body ''items'') of
        None \<Rightarrow> (Inl ServerError, store)
      | Some its \<Rightarrow>
      (case process_items e its (Fin 0) [] of
        Inl err \<Rightarrow> (Inl err, store)
      | Inr (sub, vis) \<Rightarrow>
      (case normalize_customer e (prop_of body ''customer'') of
        None \<Rightarrow> (Inl ServerError, store)
      | Some cust \<Rightarrow>
      (case normalize_address e (prop_of body ''deliveryAddress'') of
        None \<Rightarrow> (Inl ServerError, store)
      | Some addr \<Rightarrow>
      (case opt_trim e (prop_of body ''specialInstructions'') [] of
        None \<Rightarrow> (Inl ServerError, store)
      | Some instr \<Rightarrow>
      (case new_order e now cust addr vis sub (delivery_fee sub)
              (js_add sub (delivery_fee sub)) instr of
        None \<Rightarrow> (Inl ValidationError, store)
      | Some doc \<Rightarrow>
      (case save now doc store of
        Inl err \<Rightarrow> (Inl err, store)
      | Inr (saved, store') \<Rightarrow>
          (Inr \<lparr>r_orderNumber = orderNumber saved, r_total = total saved,
                r_estimatedDeliveryTime = estimatedDeliveryTime saved,
                r_status = status saved\<rparr>, store')))))))))"

section \<open>GET /api/orders/:orderNumber\<close>

text \<open>
  \<open>findOne({ orderNumber })\<close> is the first stored order with that number.  \<open>populate\<close>
  replaces the reference of a line item by the menu item it resolves to in the catalog as
  it is at the time of the lookup (\<open>pop\<close>), or by \<open>null\<close>.  The response data is the
  object literal of the handler; a Date is shown as its milliseconds.
\<close>

definition find_order :: "string \<Rightarrow> order list \<Rightarrow> order option" where
  "find_order n store = find (\<lambda>ord. orderNumber ord = n) store"

text \<open>\<open>a || b || d\<close> on strings, \<open>b\<close> read through \<open>?.\<close> from a reference that may be null.\<close>

definition or_string :: "string \<Rightarrow> string option \<Rightarrow> string \<Rightarrow> string" where
  "or_string a b d =
     (if a \<noteq> [] then a
      else case b of None \<Rightarrow> d | Some x \<Rightarrow> if x \<noteq> [] then x else d)"

definition or_number :: "jsnum \<Rightarrow> jsnum option \<Rightarrow> jsnum \<Rightarrow> jsnum" where
  "or_number a b d =
     (if truthy_num a then a
      else case b of None \<Rightarrow> d | Some x \<Rightarrow> if truthy_num x then x else d)"

definition project_item :: "(string \<Rightarrow> menu_item option) \<Rightarrow> order_item \<Rightarrow> jsval" where
  "project_item pop it =
     JObj [(''name'', JStr (or_string (oi_name it) (map_option mi_name (pop (oi_menuItem it)))
                              ''Unnamed Item'')),
           (''price'', JNum (or_number (oi_price it) (map_option mi_price (pop (oi_menuItem it)))
                               (Fin 0))),
           (''quantity'', JNum (oi_quantity it)),
           (''image'', JStr (or_string (oi_image it) (map_option mi_image (pop (oi_menuItem it)))
                               []))]"

definition address_json :: "address \<Rightarrow> jsval" where
  "address_json a =
     JObj [(''street'', JStr (a_street a)), (''area'', JStr (a_area a)),
           (''city'', JStr (a_city a)), (''pincode'', JStr (a_pincode a)),
           (''landmark'', JStr (a_landmark a))]"

definition date_json :: "nat option \<Rightarrow> jsval" where
  "date_json d = (case d of None \<Rightarrow> JUndef | Some t \<Rightarrow> JNum (Fin (of_nat t)))"

definition order_view :: "(string \<Rightarrow> menu_item option) \<Rightarrow> order \<Rightarrow> (string \<times> jsval) list" where
  "order_view pop ord =
     [(''status'', JStr (status ord)),
      (''estimatedDeliveryTime'', date_json (estimatedDeliveryTime ord)),
      (''deliveryAddress'', address_json (deliveryAddress ord)),
      (''paymentMethod'', JStr (paymentMethod ord)),
      (''items'', JArr (map (project_item pop) (items ord))),
      (''subtotal'', JNum (subtotal ord)),
      (''deliveryFee'', JNum (deliveryFee ord)),
      (''totalAmount'', JNum (total ord))]"

definition get_order ::
  "(string \<Rightarrow> menu_item option) \<Rightarrow> string \<Rightarrow> order list \<Rightarrow> error + (string \<times> jsval) list"
where
  "get_order pop n store =
     (case find_order n store of
        None \<Rightarrow> Inl NotFound
      | Some ord \<Rightarrow> Inr (order_view pop ord))"

section \<open>PUT /api/orders/:orderNumber/status\<close>

definition validStatuses :: "string list" where
  "validStatuses =
     [''pending'', ''confirmed'', ''preparing'', ''out-for-delivery'', ''delivered'', ''cancelled'']"

text \<open>\<open>validStatuses.includes(status)\<close>: only a string can equal an element.\<close>

fun includes_status :: "jsval \<Rightarrow> bool" where
  "includes_status (JStr s) = (s \<in> set validStatuses)"
| "includes_status v = False"

text \<open>
  \<open>updateData\<close> applied to a document.  \<open>findOneAndUpdate\<close> writes these paths and no
  other: it is a query, the \<open>pre('save')\<close> hook does not run for it, and the schema has no
  \<open>timestamps\<close> option.
\<close>

definition update_data :: "string \<Rightarrow> nat \<Rightarrow> order \<Rightarrow> order" where
  "update_data s now ord =
     (if s = ''delivered'' then ord\<lparr>status := s, actualDeliveryTime := Some now\<rparr>
      else ord\<lparr>status := s\<rparr>)"

text \<open>\<open>findOneAndUpdate\<close> with \<open>new: true\<close>: the first match, updated in place.\<close>

fun findOneAndUpdate ::
  "string \<Rightarrow> (order \<Rightarrow> order) \<Rightarrow> order list \<Rightarrow> (order \<times> order list) option"
where
  "findOneAndUpdate n f [] = None"
| "findOneAndUpdate n f (ord # rest) =
     (if orderNumber ord = n then Some (f ord, f ord # rest)
      else case findOneAndUpdate n f rest of
             None \<Rightarrow> None
           | Some (u, rest') \<Rightarrow> Some (u, ord # rest'))"

fun string_of :: "jsval \<Rightarrow> string" where
  "string_of (JStr s) = s"
| "string_of v = []"

definition update_status ::
  "nat \<Rightarrow> string \<Rightarrow> jsval \<Rightarrow> order list \<Rightarrow> (error + order) \<times> order list"
where
  "update_status now n body store =
     (if nullish body then (Inl ServerError, store)
      else if \<not> includes_status (prop_of body ''status'') then (Inl InvalidStatus, store)
      else case findOneAndUpdate n (update_data (string_of (prop_of body ''status'')) now) store of
             None \<Rightarrow> (Inl NotFound, store)
           | Some (u, store') \<Rightarrow> (Inr u, store'))"

section \<open>Histories of requests\<close>

text \<open>
  The three order routes as requests, each with what it reads from its environment: the
  catalog at the time of the request and, in a history, the reading of the clock.  A
  history is run from a collection, oldest request first; only the collection is kept.
\<close>

datatype request =
    PostOrder env jsval
  | GetOrder "string \<Rightarrow> menu_item option" string
  | PutStatus string jsval

fun step :: "nat \<Rightarrow> request \<Rightarrow> order list \<Rightarrow> order list" where
  "step now (PostOrder e body) store = snd (create_order e now body store)"
| "step now (GetOrder pop n) store = store"
| "step now (PutStatus n body) store = snd (update_status now n body store)"

fun run :: "(nat \<times> request) list \<Rightarrow> order list \<Rightarrow> order list" where
  "run [] store = store"
| "run ((now, rq) # rest) store = run rest (step now rq store)"

section \<open>A catalog and requests for the examples\<close>

text \<open>
  Closed examples need a concrete environment.  The item is the CAPPUCCINO of
  \<open>createDefaults\<close> (price 80); its identifier is an arbitrary 24-digit hexadecimal string.
  \<open>ObjectId.isValid\<close> accepts such a string and also a number, which \<open>findById\<close> then
  fails to cast.  The strings of the examples are ASCII, on which trimming, lower-casing
  and the length are as below.  Every quantity of the examples is a number, so the
  conversions of strings and objects are never called there; they are set to the result
  for a string that is not numeric.
\<close>

definition is_hex :: "char \<Rightarrow> bool" where
  "is_hex c = (c \<in> set ''0123456789abcdefABCDEF'')"

fun hex24 :: "jsval \<Rightarrow> bool" where
  "hex24 (JStr s) = (length s = 24 \<and> list_all is_hex s)"
| "hex24 v = False"

fun is_number :: "jsval \<Rightarrow> bool" where
  "is_number (JNum n) = True"
| "is_number v = False"

definition ascii_space :: "char \<Rightarrow> bool" where
  "ascii_space c = (c \<in> set [CHR '' '', CHR 0x09, CHR 0x0A, CHR 0x0B, CHR 0x0C, CHR 0x0D])"

definition ascii_trim :: "string \<Rightarrow> string" where
  "ascii_trim s = rev (dropWhile ascii_space (rev (dropWhile ascii_space s)))"

definition ascii_lower_char :: "char \<Rightarrow> char" where
  "ascii_lower_char c =
     (case map_of (zip ''ABCDEFGHIJKLMNOPQRSTUVWXYZ'' ''abcdefghijklmnopqrstuvwxyz'') c of
        None \<Rightarrow> c
      | Some l \<Rightarrow> l)"

definition ascii_lower :: "string \<Rightarrow> string" where
  "ascii_lower s = map ascii_lower_char s"

definition cappuccino :: menu_item where
  "cappuccino =
     \<lparr>mi_id = ''65f1a2b3c4d5e6f708192a3b'', mi_name = ''CAPPUCCINO'', mi_price = Fin 80,
      mi_image = ''https://images.pexels.com/photos/302899/pexels-photo-302899.jpeg'',
      mi_isAvailable = True\<rparr>"

definition demo_env :: env where
  "demo_env =
     \<lparr>isValid = (\<lambda>v. hex24 v \<or> is_number v),
      findById = (\<lambda>v. if v = JStr (mi_id cappuccino) then Document cappuccino
                       else if is_number v then ThrowsCastError else Null),
      stringToNumber = (\<lambda>s. NaN),
      objectToString = (\<lambda>v. ''[object Object]''),
      trim = ascii_trim,
      toLowerCase = ascii_lower,
      codeUnits = length\<rparr>"

definition demo_item :: "jsval \<Rightarrow> jsval" where
  "demo_item q =
     JObj [(''menuItemId'', JStr ''65f1a2b3c4d5e6f708192a3b''), (''quantity'', q),
           (''name'', JStr ''Free coffee''), (''price'', JNum (Fin 1))]"

definition demo_customer :: "string \<Rightarrow> jsval" where
  "demo_customer n =
     JObj [(''name'', JStr n), (''email'', JStr ''Asha@Example.com''),
           (''phone'', JStr ''9876543210'')]"

definition demo_address :: jsval where
  "demo_address =
     JObj [(''street'', JStr ''12 CG Road''), (''area'', JStr ''Navrangpura''),
           (''pincode'', JStr ''380009'')]"

definition demo_fields :: "jsval \<Rightarrow> (string \<times> jsval) list" where
  "demo_fields its =
     [(''customer'', demo_customer ''Asha''), (''deliveryAddress'', demo_address),
      (''items'', its)]"

definition demo_body :: "jsval \<Rightarrow> jsval" where
  "demo_body its = JObj (demo_fields its)"

definition demo_request :: "jsval \<Rightarrow> jsval" where
  "demo_request q = demo_body (JArr [demo_item q])"

text \<open>
  Two requests apart: a customer whose name is three spaces, and an item whose identifier
  is the number 12345.
\<close>

definition blank_name_request :: jsval where
  "blank_name_request =
     JObj [(''customer'', demo_customer ''   ''), (''deliveryAddress'', demo_address),
           (''items'', JArr [demo_item (JNum (Fin 2))])]"

definition numeric_id_item :: jsval where
  "numeric_id_item = JObj [(''menuItemId'', JNum (Fin 12345)), (''quantity'', JNum (Fin 1))]"

text \<open>
  The orders that these requests create at time 1700000000000 in an empty collection, with
  one line for each quantity.
\<close>

definition demo_line :: "rat \<Rightarrow> order_item" where
  "demo_line q =
     \<lparr>oi_menuItem = ''65f1a2b3c4d5e6f708192a3b'', oi_name = ''CAPPUCCINO'',
      oi_price = Fin 80, oi_quantity = Fin q,
      oi_image = ''https://images.pexels.com/photos/302899/pexels-photo-302899.jpeg''\<rparr>"

definition demo_order_of :: "order_item list \<Rightarrow> rat \<Rightarrow> rat \<Rightarrow> rat \<Rightarrow> order" where
  "demo_order_of lines s f t =
     \<lparr>orderNumber = ''CA000000001'',
      customer = \<lparr>c_name = ''Asha'', c_email = ''asha@example.com'', c_phone = ''9876543210''\<rparr>,
      deliveryAddress = \<lparr>a_street = ''12 CG Road'', a_area = ''Navrangpura'',
                         a_city = ''Ahmedabad'', a_pincode = ''380009'', a_landmark = []\<rparr>,
      items = lines,
      subtotal = Fin s, deliveryFee = Fin f, total = Fin t, paymentMethod = ''cod'',
      status = ''pending'', specialInstructions = [],
      estimatedDeliveryTime = Some 1700002700000,
      actualDeliveryTime = None, createdAt = 1700000000000, updatedAt = 1700000000000\<rparr>"

definition demo_order :: "rat \<Rightarrow> rat \<Rightarrow> rat \<Rightarrow> rat \<Rightarrow> order" where
  "demo_order q s f t = demo_order_of [demo_line q] s f t"


definition demo_receipt :: "rat \<Rightarrow> receipt" where
  "demo_receipt t =
     \<lparr>r_orderNumber = ''CA000000001'', r_total = Fin t,
      r_estimatedDeliveryTime = Some 1700002700000, r_status = ''pending''\<rparr>"

section \<open>The checks of the handler, one by one\<close>










section \<open>The notions of the specification\<close>




text \<open>
  Two items that select the same menu item in the same quantity; they may differ in every
  other property, such as a \<open>name\<close> or a \<open>price\<close> sent by the client.
\<close>

definition same_selection :: "jsval \<Rightarrow> jsval \<Rightarrow> bool" where
  "same_selection item item' =
     (nullish item = nullish item'
      \<and> prop_of item ''menuItemId'' = prop_of item' ''menuItemId''
      \<and> prop_of item ''quantity'' = prop_of item' ''quantity'')"

text \<open>The decimal digits, and the number that a string of them denotes.\<close>

definition is_digit :: "char \<Rightarrow> bool" where
  "is_digit c = (c \<in> set ''0123456789'')"

definition digit_value :: "char \<Rightarrow> nat" where
  "digit_value c = length (takeWhile (\<lambda>d. d \<noteq> c) ''0123456789'')"

definition parse_decimal :: "string \<Rightarrow> nat" where
  "parse_decimal s = foldl (\<lambda>n c. 10 * n + digit_value c) 0 s"

section \<open>Rounding\<close>

text \<open>
  An integer below \<open>2^53\<close> is a double, so rounding leaves it as it is; and a sum that is
  not a double is rounded: \<open>0.1 + 0.2\<close> is \<open>0.30000000000000004\<close>.
\<close>

lemma ilog2_bounds:
  "1 \<le> n \<Longrightarrow> 0 \<le> ilog2 n \<and> 2 ^ nat (ilog2 n) \<le> n \<and> n < 2 * 2 ^ nat (ilog2 n)"
proof (induction n rule: ilog2.induct)
  case (1 n)
  show ?case
  proof (cases "n \<le> 1")
    case True
    with "1.prems" have "n = 1" by simp
    then show ?thesis by (simp add: ilog2.simps)
  next
    case False
    then have half: "1 \<le> n div 2" by simp
    from "1.IH"[OF False half]
    have k: "0 \<le> ilog2 (n div 2)" and lo: "2 ^ nat (ilog2 (n div 2)) \<le> n div 2"
      and hi: "n div 2 < 2 * 2 ^ nat (ilog2 (n div 2))" by simp_all
    from False have eq: "ilog2 n = 1 + ilog2 (n div 2)" by (subst ilog2.simps) simp
    from k have nat_eq: "nat (1 + ilog2 (n div 2)) = Suc (nat (ilog2 (n div 2)))" by simp
    have "2 * (n div 2) \<le> n" by simp
    moreover have "n < 2 * (n div 2) + 2" by simp
    ultimately show ?thesis using k lo hi unfolding eq nat_eq by simp
  qed
qed

lemma round_half_even_int: "round_half_even (of_int k) = k"
  by (simp add: round_half_even_def)

lemma round_double_int:
  assumes "0 < n" and "n < 2 ^ 53"
  shows "round_double (of_int n) = Fin (of_int n)"
proof -
  define e where "e = ilog2 n"
  from assms(1) ilog2_bounds[of n] have e0: "0 \<le> e" and lo: "2 ^ nat e \<le> n"
    by (simp_all add: e_def)
  have "nat e < 53"
  proof (rule ccontr)
    assume "\<not> nat e < 53"
    then have "(2::int) ^ 53 \<le> 2 ^ nat e" by (intro power_increasing) simp_all
    with lo assms(2) show False by simp
  qed
  with e0 have e52: "e \<le> 52" by simp
  have fl: "floor_log2 (of_int n) = e"
    using assms(1) by (simp add: floor_log2_def e_def)
  have q: "max (e - 52) (- 1074) = e - 52" using e0 by simp
  have p: "pow2 (e - 52) = 1 / 2 ^ nat (52 - e)"
    using e52 by (cases "e = 52") (simp_all add: pow2_def)
  have "of_int n / pow2 (e - 52) = (of_int (n * 2 ^ nat (52 - e)) :: rat)"
    by (simp add: p)
  then have "round_half_even (of_int n / pow2 (e - 52)) = n * 2 ^ nat (52 - e)"
    by (simp only: round_half_even_int)
  then have m: "round_magnitude (of_int n) = of_int n"
    by (simp add: round_magnitude_def fl q p)
  have "(of_int n :: rat) < 2 ^ 53" using assms(2) by (metis of_int_less_numeral_power_cancel_iff)
  also have "(2::rat) ^ 53 \<le> 2 ^ 1024" by (intro power_increasing) simp_all
  finally have big: "\<not> pow2 1024 \<le> (of_int n :: rat)" by (simp add: pow2_def)
  from assms(1) m big show ?thesis by (simp add: round_double_def)
qed

lemma round_double_numeral:
  "(numeral k :: int) < 9007199254740992 \<Longrightarrow> round_double (numeral k) = Fin (numeral k)"
  using round_double_int[of "numeral k"] by simp

lemma r0: "round_double 0 = Fin 0" by (simp add: round_double_def)

lemma js_add_rounds:
  "js_add (Fin (3602879701896397 / 36028797018963968)) (Fin (3602879701896397 / 18014398509481984))
     = Fin (1351079888211149 / 4503599627370496)"
proof -
  define x :: rat where "x = 10808639105689191 / 36028797018963968"
  have small: "\<not> 1 \<le> x" by (simp add: x_def)
  have inv: "\<lceil>1 / x\<rceil> = 4" by (simp add: x_def ceiling_eq_iff)
  have "ilog2 3 = 1" by (simp add: ilog2.simps[of 3] ilog2.simps[of 1])
  with small inv have fl: "floor_log2 x = - 2" by (simp add: floor_log2_def)
  have ulp: "pow2 (max (floor_log2 x - 52) (- 1074)) = 1 / 18014398509481984"
    by (simp add: fl pow2_def)
  have q: "x * 18014398509481984 = 10808639105689191 / 2" by (simp add: x_def)
  have f: "\<lfloor>10808639105689191 / 2 :: rat\<rfloor> = 5404319552844595" by (simp add: floor_eq_iff)
  have "round_half_even (10808639105689191 / 2) = 5404319552844596"
    by (simp add: round_half_even_def f)
  then have m: "round_magnitude x = 1351079888211149 / 4503599627370496"
    by (simp add: round_magnitude_def ulp q)
  have pos: "0 < x" "x \<noteq> 0" "\<bar>x\<bar> = x" by (simp_all add: x_def)
  have "(1351079888211149 / 4503599627370496 :: rat) < 1" by simp
  also have "(1::rat) \<le> 2 ^ 1024" by (rule one_le_power) simp
  finally have "\<not> pow2 1024 \<le> round_magnitude x" by (simp add: m pow2_def)
  with pos m have "round_double x = Fin (1351079888211149 / 4503599627370496)"
    by (simp add: round_double_def)
  then have "round_double (10808639105689191 / 36028797018963968)
      = Fin (1351079888211149 / 4503599627370496)"
    by (simp only: x_def)
  then show ?thesis by (simp add: js_add_def)
qed

section \<open>Running the handlers on concrete requests\<close>

lemma replicate_unfold: "replicate n x = (if n = 0 then [] else x # replicate (n - 1) x)"
  by (cases n) simp_all

lemmas run_defs = replicate_unfold validate_item_def itemTotal_def snapshot_def
  create_order_def required_fields_def demo_request_def demo_body_def demo_fields_def demo_address_def
  blank_name_request_def numeric_id_item_def
  demo_customer_def demo_item_def demo_order_def demo_order_of_def demo_line_def
  demo_receipt_def demo_env_def cappuccino_def
  js_add_def js_mul_def round_double_numeral r0
  js_lt_def js_ge_def truthy_num_def not_NaN_def delivery_fee_def normalize_customer_def
  normalize_address_def new_order_def cast_item_def save_def pre_save_def gen_orderNumber_def
  toString.simps slice_last_def padStart_def digit_char_def Let_def ascii_trim_def
  ascii_space_def ascii_lower_def ascii_lower_char_def is_hex_def

lemma demo_create:
  "create_order demo_env 1700000000000 (demo_request (JNum (Fin 2))) []
     = (Inr (demo_receipt 190), [demo_order 2 160 30 190])"
  "create_order demo_env 1700000000000 (demo_request (JNum (Fin 4))) []
     = (Inr (demo_receipt 320), [demo_order 4 320 0 320])"
  "create_order demo_env 1700000000000 (demo_request (JNum (Fin (3 / 2)))) []
     = (Inr (demo_receipt 150), [demo_order (3 / 2) 120 30 150])"
  by (simp_all add: run_defs)

lemma demo_create_two_lines:
  "create_order demo_env 1700000000000
     (demo_body (JArr [demo_item (JNum (Fin 2)), demo_item (JNum (Fin (3 / 2)))])) []
     = (Inr (demo_receipt 310), [demo_order_of [demo_line 2, demo_line (3 / 2)] 280 30 310])"
  by (simp add: run_defs)



section \<open>What a successful and a failed creation look like\<close>

lemma create_order_failed:
  assumes "create_order e now body store = (Inl err, store')"
  shows "store' = store"
  using assms
  by (auto simp: create_order_def save_def Let_def
           split: if_splits option.splits sum.splits prod.splits)

lemma create_order_created:
  assumes "create_order e now body store = (Inr r, store')"
  obtains its sub vis cust addr instr doc where
    "\<not> nullish body"
    "required_fields (prop_of body ''customer'') (prop_of body ''deliveryAddress'')
       (prop_of body ''items'') = None"
    "iterate (prop_of body ''items'') = Some its"
    "process_items e its (Fin 0) [] = Inr (sub, vis)"
    "normalize_customer e (prop_of body ''customer'') = Some cust"
    "normalize_address e (prop_of body ''deliveryAddress'') = Some addr"
    "opt_trim e (prop_of body ''specialInstructions'') [] = Some instr"
    "new_order e now cust addr vis sub (delivery_fee sub) (js_add sub (delivery_fee sub)) instr
       = Some doc"
    "orderNumber (pre_save now (length store) doc) \<notin> set (map orderNumber store)"
    "store' = store @ [pre_save now (length store) doc]"
    "r = \<lparr>r_orderNumber = orderNumber (pre_save now (length store) doc),
          r_total = total (pre_save now (length store) doc),
          r_estimatedDeliveryTime = estimatedDeliveryTime (pre_save now (length store) doc),
          r_status = status (pre_save now (length store) doc)\<rparr>"
  using assms
  by (auto simp: create_order_def save_def Let_def
           split: if_splits option.splits sum.splits prod.splits)

lemma new_order_fields:
  assumes "new_order e now cust addr vis sub fee tot instr = Some doc"
  shows "subtotal doc = sub" "deliveryFee doc = fee" "total doc = tot"
    "those (map (cast_item e) vis) = Some (items doc)"
    "customer doc = cust" "deliveryAddress doc = addr" "status doc = ''pending''"
    "paymentMethod doc = ''cod''" "createdAt doc = now" "actualDeliveryTime doc = None"
    "js_ge sub (Fin 0)" "js_ge tot (Fin 0)"
  using assms
  by (auto simp: new_order_def split: option.splits if_splits)

lemma pre_save_fields:
  "subtotal (pre_save now c doc) = subtotal doc"
  "deliveryFee (pre_save now c doc) = deliveryFee doc"
  "total (pre_save now c doc) = total doc"
  "items (pre_save now c doc) = items doc"
  "status (pre_save now c doc) = status doc"
  "customer (pre_save now c doc) = customer doc"
  "createdAt (pre_save now c doc) = createdAt doc"
  "actualDeliveryTime (pre_save now c doc) = actualDeliveryTime doc"
  "orderNumber (pre_save now c doc) = gen_orderNumber now c"
  "estimatedDeliveryTime (pre_save now c doc) = Some (now + 45 * 60 * 1000)"
  "updatedAt (pre_save now c doc) = now"
  by (simp_all add: pre_save_def)

lemma js_ge_not_NaN: "js_ge a b \<Longrightarrow> a \<noteq> NaN"
  by (simp add: js_ge_def)

lemma process_items_Inr:
  "process_items e its sub acc = Inr (sub', vis) \<Longrightarrow>
     \<exists>ms. list_all2 (\<lambda>item m. validate_item e item = Inr m) its ms
        \<and> vis = acc @ map2 snapshot ms its
        \<and> sub' = foldl js_add sub (map2 (itemTotal e) ms its)"
proof (induction its arbitrary: sub acc)
  case Nil
  then show ?case by simp
next
  case (Cons item rest)
  from Cons.prems obtain m where m: "validate_item e item = Inr m"
    and rest: "process_items e rest (js_add sub (itemTotal e m item)) (acc @ [snapshot m item])
                 = Inr (sub', vis)"
    by (auto split: sum.splits)
  from Cons.IH[OF rest] obtain ms where
    "list_all2 (\<lambda>item m. validate_item e item = Inr m) rest ms"
    "vis = (acc @ [snapshot m item]) @ map2 snapshot ms rest"
    "sub' = foldl js_add (js_add sub (itemTotal e m item)) (map2 (itemTotal e) ms rest)"
    by blast
  with m show ?case by (intro exI[of _ "m # ms"]) simp
qed

lemma those_map_Some:
  "those (map f xs) = Some ys \<Longrightarrow> list_all2 (\<lambda>x y. f x = Some y) xs ys"
  by (induction xs arbitrary: ys) (auto split: option.splits)

lemma cast_number_to_number:
  "cast_number e v = Some q \<Longrightarrow> to_number e v = q \<and> q \<noteq> NaN"
  by (cases v) (auto simp: not_NaN_def split: if_splits)

lemma cast_item_Some:
  assumes "cast_item e v = Some line"
  shows "oi_menuItem line = vi_menuItem v" "oi_name line = vi_name v"
    "oi_price line = vi_price v" "oi_image line = vi_image v"
    "to_number e (vi_quantity v) = oi_quantity line" "js_ge (oi_quantity line) (Fin 1)"
  using assms
  by (auto simp: cast_item_def dest: cast_number_to_number split: option.splits if_splits)

lemma validate_item_Inr:
  assumes "validate_item e item = Inr m"
  shows "findById e (prop_of item ''menuItemId'') = Document m" "mi_isAvailable m"
    "isValid e (prop_of item ''menuItemId'')" "\<not> nullish item"
  using assms
  by (auto simp: validate_item_def split: if_splits lookup.splits)

lemma foldl_js_add_lines:
  assumes "list_all2 (\<lambda>item m. validate_item e item = Inr m) its ms"
    and "list_all2 (\<lambda>v line. cast_item e v = Some line) (map2 snapshot ms its) lines"
  shows "foldl js_add a (map2 (itemTotal e) ms its)
           = foldl js_add a (map (\<lambda>line. js_mul (oi_price line) (oi_quantity line)) lines)"
  using assms
proof (induction its ms arbitrary: a lines rule: list_all2_induct)
  case Nil
  then show ?case by simp
next
  case (Cons item its m ms)
  from Cons.prems obtain line rest where lines: "lines = line # rest"
    and line: "cast_item e (snapshot m item) = Some line"
    and rest: "list_all2 (\<lambda>v line. cast_item e v = Some line) (map2 snapshot ms its) rest"
    by (auto simp: list_all2_Cons1)
  from cast_item_Some[OF line]
  have "itemTotal e m item = js_mul (oi_price line) (oi_quantity line)"
    by (simp add: itemTotal_def snapshot_def)
  then show ?case
    using Cons.IH[OF rest] lines by simp
qed

lemma lines_from_catalog:
  assumes "list_all2 (\<lambda>item m. validate_item e item = Inr m) its ms"
    and "list_all2 (\<lambda>v line. cast_item e v = Some line) (map2 snapshot ms its) lines"
  shows "list_all2 (\<lambda>item line. \<exists>m. findById e (prop_of item ''menuItemId'') = Document m
            \<and> oi_menuItem line = mi_id m \<and> oi_name line = mi_name m
            \<and> oi_price line = mi_price m \<and> oi_image line = mi_image m
            \<and> oi_quantity line = to_number e (prop_of item ''quantity'')) its lines"
  using assms
proof (induction its ms arbitrary: lines rule: list_all2_induct)
  case Nil
  then show ?case by simp
next
  case (Cons item its m ms)
  from Cons.prems obtain line rest where lines: "lines = line # rest"
    and line: "cast_item e (snapshot m item) = Some line"
    and rest: "list_all2 (\<lambda>v line. cast_item e v = Some line) (map2 snapshot ms its) rest"
    by (auto simp: list_all2_Cons1)
  from cast_item_Some[OF line] validate_item_Inr(1)[OF Cons.hyps(1)]
  have "findById e (prop_of item ''menuItemId'') = Document m
            \<and> oi_menuItem line = mi_id m \<and> oi_name line = mi_name m
            \<and> oi_price line = mi_price m \<and> oi_image line = mi_image m
            \<and> oi_quantity line = to_number e (prop_of item ''quantity'')"
    by (simp add: snapshot_def)
  then show ?case
    using Cons.IH[OF rest] lines by auto
qed

lemma same_selection_validate:
  assumes "same_selection item item'" and "validate_item e item = Inr m"
  shows "validate_item e item' = Inr m" "itemTotal e m item' = itemTotal e m item"
    "snapshot m item' = snapshot m item"
  using assms
  by (auto simp: same_selection_def validate_item_def itemTotal_def snapshot_def
           split: if_splits lookup.splits)

lemma process_items_same_selection:
  assumes "list_all2 same_selection its its'"
    and "process_items e its sub acc = Inr x"
  shows "process_items e its' sub acc = Inr x"
  using assms
proof (induction its its' arbitrary: sub acc rule: list_all2_induct)
  case Nil
  then show ?case by simp
next
  case (Cons item its item' its')
  from Cons.prems obtain m where m: "validate_item e item = Inr m"
    and rest: "process_items e its (js_add sub (itemTotal e m item)) (acc @ [snapshot m item])
                 = Inr x"
    by (auto split: sum.splits)
  from same_selection_validate[OF Cons.hyps(1) m] Cons.IH[OF rest]
  show ?case by simp
qed

lemma required_fields_items_length:
  "length its' = length its \<Longrightarrow>
     required_fields cust addr (JArr its') = required_fields cust addr (JArr its)"
  by (simp add: required_fields_def)

lemma js_add_integers:
  assumes "0 \<le> k" and "0 \<le> f" and "k + f < 2 ^ 53"
  shows "js_add (Fin (of_int k)) (Fin (of_int f)) = Fin (of_int (k + f))"
proof (cases "k + f = 0")
  case True
  then show ?thesis by (simp add: js_add_def round_double_def flip: of_int_add)
next
  case False
  with assms have "0 < k + f" by simp
  from round_double_int[OF this assms(3)] show ?thesis by (simp add: js_add_def)
qed

section \<open>Totals of a created order\<close>

text \<open>
  C1. For every created order the delivery fee is 0 when the subtotal is at least 300 and
  30 otherwise, and the total is the subtotal plus the delivery fee: the sum as the
  language computes it on doubles, which is what the handler stores and what
  \<open>total == subtotal + deliveryFee\<close> compares with.  No amount of a created order is NaN.
  When the subtotal is a whole number below \<open>2^52\<close>, no rounding takes place: the fee is 0
  from 300 on and 30 below, and the total is the sum of the two integers.
  The witness runs the two examples: one CAPPUCCINO line (price 80) with quantity 2 gives
  160, 30 and 190, with quantity 4 it gives 320, 0 and 320.
\<close>

theorem order_totals:
  assumes "create_order e now body store = (Inr r, store')"
  shows "\<exists>ord. store' = store @ [ord]
           \<and> deliveryFee ord = (if js_ge (subtotal ord) (Fin 300) then Fin 0 else Fin 30)
           \<and> total ord = js_add (subtotal ord) (deliveryFee ord)
           \<and> subtotal ord \<noteq> NaN \<and> total ord \<noteq> NaN
           \<and> (\<forall>k. subtotal ord = Fin (of_int k) \<and> k < 2 ^ 52
                \<longrightarrow> deliveryFee ord = Fin (if 300 \<le> k then 0 else 30)
                    \<and> total ord = Fin (of_int (k + (if 300 \<le> k then 0 else 30))))"
proof -
  from assms obtain its sub vis cust addr instr doc where
    doc: "new_order e now cust addr vis sub (delivery_fee sub) (js_add sub (delivery_fee sub)) instr
            = Some doc"
    and st: "store' = store @ [pre_save now (length store) doc]"
    by (rule create_order_created)
  let ?ord = "pre_save now (length store) doc"
  from new_order_fields[OF doc]
  have sub: "subtotal doc = sub"
    and fee: "deliveryFee doc = delivery_fee sub"
    and tot: "total doc = js_add sub (delivery_fee sub)"
    and ok: "js_ge sub (Fin 0)" "js_ge (js_add sub (delivery_fee sub)) (Fin 0)" by simp_all
  from ok have nan: "sub \<noteq> NaN" "js_add sub (delivery_fee sub) \<noteq> NaN"
    by (simp_all add: js_ge_not_NaN)
  have whole: "delivery_fee sub = Fin (if 300 \<le> k then 0 else 30)
      \<and> js_add sub (delivery_fee sub) = Fin (of_int (k + (if 300 \<le> k then 0 else 30)))"
    if k: "sub = Fin (of_int k)" "k < 2 ^ 52" for k
  proof -
    from ok(1) k(1) have k0: "0 \<le> k" by (simp add: js_ge_def js_lt_def)
    have fee_k: "delivery_fee sub = Fin (of_int (if 300 \<le> k then 0 else 30))"
      using k(1) by (simp add: delivery_fee_def js_ge_def js_lt_def not_less)
    have "k + (if 300 \<le> k then 0 else 30) < 2 ^ 53" using k(2) by simp
    from js_add_integers[OF k0 _ this] fee_k k(1) show ?thesis by simp
  qed
  have s1: "subtotal ?ord = sub" and f1: "deliveryFee ?ord = delivery_fee sub"
    and t1: "total ?ord = js_add sub (delivery_fee sub)"
    by (simp_all add: pre_save_fields sub fee tot)
  have integers: "\<forall>k. subtotal ?ord = Fin (of_int k) \<and> k < 2 ^ 52
      \<longrightarrow> deliveryFee ?ord = Fin (if 300 \<le> k then 0 else 30)
          \<and> total ?ord = Fin (of_int (k + (if 300 \<le> k then 0 else 30)))"
  proof (intro allI impI)
    fix k
    assume "subtotal ?ord = Fin (of_int k) \<and> k < 2 ^ 52"
    with s1 have "sub = Fin (of_int k)" "k < 2 ^ 52" by simp_all
    from whole[OF this]
    show "deliveryFee ?ord = Fin (if 300 \<le> k then 0 else 30)
          \<and> total ?ord = Fin (of_int (k + (if 300 \<le> k then 0 else 30)))"
      unfolding f1 t1 .
  qed
  have "deliveryFee ?ord = (if js_ge (subtotal ?ord) (Fin 300) then Fin 0 else Fin 30)"
    unfolding f1 s1 by (rule delivery_fee_def)
  moreover have "total ?ord = js_add (subtotal ?ord) (deliveryFee ?ord)"
    unfolding f1 s1 t1 ..
  moreover have "subtotal ?ord \<noteq> NaN" "total ?ord \<noteq> NaN"
    unfolding s1 t1 by (rule nan)+
  ultimately show ?thesis
    using st integers by (intro exI[of _ ?ord] conjI)
qed

theorem order_totals_witness:
  "create_order demo_env 1700000000000 (demo_request (JNum (Fin 2))) []
     = (Inr (demo_receipt 190), [demo_order 2 160 30 190])
   \<and> create_order demo_env 1700000000000 (demo_request (JNum (Fin 4))) []
     = (Inr (demo_receipt 320), [demo_order 4 320 0 320])
   \<and> subtotal (demo_order 2 160 30 190) = Fin 160
   \<and> deliveryFee (demo_order 2 160 30 190) = Fin 30
   \<and> total (demo_order 2 160 30 190) = Fin 190
   \<and> js_add (Fin 160) (Fin 30) = Fin 190
   \<and> subtotal (demo_order 4 320 0 320) = Fin 320
   \<and> deliveryFee (demo_order 4 320 0 320) = Fin 0
   \<and> total (demo_order 4 320 0 320) = Fin 320
   \<and> js_add (Fin 320) (Fin 0) = Fin 320"
proof -
  have sub: "subtotal (demo_order 2 160 30 190) = Fin 160"
    "subtotal (demo_order 4 320 0 320) = Fin 320"
    by (simp_all add: demo_order_def demo_order_of_def)
  from order_totals[OF demo_create(1)] obtain ord where
    o: "[demo_order 2 160 30 190] = [] @ [ord]"
      "total ord = js_add (subtotal ord) (deliveryFee ord)"
      "\<forall>k. subtotal ord = Fin (of_int k) \<and> k < 2 ^ 52
        \<longrightarrow> deliveryFee ord = Fin (if 300 \<le> k then 0 else 30)
            \<and> total ord = Fin (of_int (k + (if 300 \<le> k then 0 else 30)))"
    by blast
  from o(1) have ord: "ord = demo_order 2 160 30 190" by simp
  from o(3)[rule_format, of 160] sub(1)
  have a: "deliveryFee (demo_order 2 160 30 190) = Fin 30"
    "total (demo_order 2 160 30 190) = Fin 190"
    by (simp_all add: ord)
  from o(2) sub(1) a have a': "js_add (Fin 160) (Fin 30) = Fin 190" by (simp add: ord)
  from order_totals[OF demo_create(2)] obtain ord' where
    p: "[demo_order 4 320 0 320] = [] @ [ord']"
      "total ord' = js_add (subtotal ord') (deliveryFee ord')"
      "\<forall>k. subtotal ord' = Fin (of_int k) \<and> k < 2 ^ 52
        \<longrightarrow> deliveryFee ord' = Fin (if 300 \<le> k then 0 else 30)
            \<and> total ord' = Fin (of_int (k + (if 300 \<le> k then 0 else 30)))"
    by blast
  from p(1) have ord': "ord' = demo_order 4 320 0 320" by simp
  from p(3)[rule_format, of 320] sub(2)
  have b: "deliveryFee (demo_order 4 320 0 320) = Fin 0"
    "total (demo_order 4 320 0 320) = Fin 320"
    by (simp_all add: ord')
  from p(2) sub(2) b have b': "js_add (Fin 320) (Fin 0) = Fin 320" by (simp add: ord')
  from demo_create(1,2) sub a a' b b' show ?thesis by (simp only: simp_thms)
qed

text \<open>
  C2. For every created order the persisted lines are, in the order of the request,
  snapshots of the menu items that the identifiers resolve to (reference, name, price and
  image of the catalog, quantity of the request), and the subtotal is the sum over the lines
  of catalog price times quantity, computed as the handler does: from 0, line after line,
  each product and each sum rounded to a double.  Whatever else an item of the request
  carries (a name, a price) has no effect: a request whose items select the same menu items
  in the same quantities yields the same response and the same collection.
\<close>

theorem subtotal_from_catalog:
  assumes "create_order e now body store = (Inr r, store')"
  shows "(\<exists>ord its. store' = store @ [ord] \<and> iterate (prop_of body ''items'') = Some its
            \<and> list_all2 (\<lambda>item line. \<exists>m. findById e (prop_of item ''menuItemId'') = Document m
                  \<and> oi_menuItem line = mi_id m \<and> oi_name line = mi_name m
                  \<and> oi_price line = mi_price m \<and> oi_image line = mi_image m
                  \<and> oi_quantity line = to_number e (prop_of item ''quantity''))
                its (items ord)
            \<and> subtotal ord
                = foldl js_add (Fin 0)
                    (map (\<lambda>line. js_mul (oi_price line) (oi_quantity line)) (items ord)))
       \<and> (\<forall>kvs its its'. body = JObj kvs \<and> prop_of body ''items'' = JArr its
              \<and> list_all2 same_selection its its'
            \<longrightarrow> create_order e now (JObj ((''items'', JArr its') # kvs)) store = (Inr r, store'))"
proof -
  from assms obtain its sub vis cust addr instr doc where
    nn: "\<not> nullish body"
    and req: "required_fields (prop_of body ''customer'') (prop_of body ''deliveryAddress'')
       (prop_of body ''items'') = None"
    and it: "iterate (prop_of body ''items'') = Some its"
    and pr: "process_items e its (Fin 0) [] = Inr (sub, vis)"
    and cu: "normalize_customer e (prop_of body ''customer'') = Some cust"
    and ad: "normalize_address e (prop_of body ''deliveryAddress'') = Some addr"
    and si: "opt_trim e (prop_of body ''specialInstructions'') [] = Some instr"
    and doc: "new_order e now cust addr vis sub (delivery_fee sub) (js_add sub (delivery_fee sub))
                instr = Some doc"
    and fresh: "orderNumber (pre_save now (length store) doc) \<notin> set (map orderNumber store)"
    and st: "store' = store @ [pre_save now (length store) doc]"
    and r: "r = \<lparr>r_orderNumber = orderNumber (pre_save now (length store) doc),
          r_total = total (pre_save now (length store) doc),
          r_estimatedDeliveryTime = estimatedDeliveryTime (pre_save now (length store) doc),
          r_status = status (pre_save now (length store) doc)\<rparr>"
    by (rule create_order_created)
  let ?ord = "pre_save now (length store) doc"
  from process_items_Inr[OF pr] obtain ms where
    ms: "list_all2 (\<lambda>item m. validate_item e item = Inr m) its ms"
    and vis: "vis = map2 snapshot ms its"
    and sub: "sub = foldl js_add (Fin 0) (map2 (itemTotal e) ms its)"
    by auto
  from new_order_fields(4)[OF doc] vis
  have cast: "list_all2 (\<lambda>v line. cast_item e v = Some line) (map2 snapshot ms its) (items doc)"
    by (simp add: those_map_Some)
  from foldl_js_add_lines[OF ms cast, of "Fin 0"] sub new_order_fields(1)[OF doc]
  have total: "subtotal doc
      = foldl js_add (Fin 0) (map (\<lambda>line. js_mul (oi_price line) (oi_quantity line)) (items doc))"
    by simp
  have first: "\<exists>ord its. store' = store @ [ord] \<and> iterate (prop_of body ''items'') = Some its
            \<and> list_all2 (\<lambda>item line. \<exists>m. findById e (prop_of item ''menuItemId'') = Document m
                  \<and> oi_menuItem line = mi_id m \<and> oi_name line = mi_name m
                  \<and> oi_price line = mi_price m \<and> oi_image line = mi_image m
                  \<and> oi_quantity line = to_number e (prop_of item ''quantity''))
                its (items ord)
            \<and> subtotal ord
                = foldl js_add (Fin 0)
                    (map (\<lambda>line. js_mul (oi_price line) (oi_quantity line)) (items ord))"
    using st it lines_from_catalog[OF ms cast] total
    by (intro exI[of _ ?ord] exI[of _ its]) (simp add: pre_save_fields)
  have second: "create_order e now (JObj ((''items'', JArr its') # kvs)) store = (Inr r, store')"
    if b: "body = JObj kvs" and arr: "prop_of body ''items'' = JArr its0"
      and sel: "list_all2 same_selection its0 its'" for kvs its0 its'
  proof -
    from it arr have its0: "its0 = its" by simp
    from sel its0 have len: "length its' = length its" by (simp add: list_all2_lengthD)
    from process_items_same_selection[OF sel[unfolded its0] pr]
    have pr': "process_items e its' (Fin 0) [] = Inr (sub, vis)" .
    from req arr its0 required_fields_items_length[OF len]
    have req': "required_fields (prop_of body ''customer'') (prop_of body ''deliveryAddress'')
                  (JArr its') = None" by simp
    show ?thesis
      using req' pr' cu ad si doc fresh st r b
      by (simp add: create_order_def save_def Let_def)
  qed
  from first second show ?thesis by blast
qed

theorem subtotal_from_catalog_witness:
  "create_order demo_env 1700000000000
       (demo_body (JArr [demo_item (JNum (Fin 2)), demo_item (JNum (Fin (3 / 2)))])) []
     = (Inr (demo_receipt 310), [demo_order_of [demo_line 2, demo_line (3 / 2)] 280 30 310])
   \<and> subtotal (demo_order_of [demo_line 2, demo_line (3 / 2)] 280 30 310)
       = js_add (js_add (Fin 0) (js_mul (Fin 80) (Fin 2))) (js_mul (Fin 80) (Fin (3 / 2)))
   \<and> create_order demo_env 1700000000000
       (JObj ((''items'', JArr [JObj [(''menuItemId'', JStr ''65f1a2b3c4d5e6f708192a3b''),
                                      (''quantity'', JNum (Fin 2)), (''name'', JStr ''CAPPUCCINO''),
                                      (''price'', JNum (Fin 80))],
                                JObj [(''menuItemId'', JStr ''65f1a2b3c4d5e6f708192a3b''),
                                      (''quantity'', JNum (Fin (3 / 2)))]])
              # demo_fields (JArr [demo_item (JNum (Fin 2)), demo_item (JNum (Fin (3 / 2)))]))) []
     = (Inr (demo_receipt 310), [demo_order_of [demo_line 2, demo_line (3 / 2)] 280 30 310])"
proof -
  note run = demo_create_two_lines
  have sel: "list_all2 same_selection [demo_item (JNum (Fin 2)), demo_item (JNum (Fin (3 / 2)))]
               [JObj [(''menuItemId'', JStr ''65f1a2b3c4d5e6f708192a3b''),
                      (''quantity'', JNum (Fin 2)), (''name'', JStr ''CAPPUCCINO''),
                      (''price'', JNum (Fin 80))],
                JObj [(''menuItemId'', JStr ''65f1a2b3c4d5e6f708192a3b''),
                      (''quantity'', JNum (Fin (3 / 2)))]]"
    by (simp add: same_selection_def demo_item_def)
  have body: "demo_body (JArr [demo_item (JNum (Fin 2)), demo_item (JNum (Fin (3 / 2)))])
      = JObj (demo_fields (JArr [demo_item (JNum (Fin 2)), demo_item (JNum (Fin (3 / 2)))]))"
    by (simp add: demo_body_def)
  have its: "prop_of (demo_body (JArr [demo_item (JNum (Fin 2)), demo_item (JNum (Fin (3 / 2)))]))
      ''items'' = JArr [demo_item (JNum (Fin 2)), demo_item (JNum (Fin (3 / 2)))]"
    by (simp add: demo_body_def demo_fields_def)
  from subtotal_from_catalog[OF run] body its sel
  have tamper: "create_order demo_env 1700000000000
       (JObj ((''items'', JArr [JObj [(''menuItemId'', JStr ''65f1a2b3c4d5e6f708192a3b''),
                                      (''quantity'', JNum (Fin 2)), (''name'', JStr ''CAPPUCCINO''),
                                      (''price'', JNum (Fin 80))],
                                JObj [(''menuItemId'', JStr ''65f1a2b3c4d5e6f708192a3b''),
                                      (''quantity'', JNum (Fin (3 / 2)))]])
              # demo_fields (JArr [demo_item (JNum (Fin 2)), demo_item (JNum (Fin (3 / 2)))]))) []
     = (Inr (demo_receipt 310), [demo_order_of [demo_line 2, demo_line (3 / 2)] 280 30 310])"
    by blast
  have sum: "subtotal (demo_order_of [demo_line 2, demo_line (3 / 2)] 280 30 310)
       = js_add (js_add (Fin 0) (js_mul (Fin 80) (Fin 2))) (js_mul (Fin 80) (Fin (3 / 2)))"
    by (simp add: demo_order_of_def js_add_def js_mul_def round_double_numeral)
  from run tamper sum show ?thesis by simp
qed

section \<open>Validation of a request\<close>


















section \<open>The order number\<close>

lemma toString_small: "n < 10 \<Longrightarrow> toString n = [digit_char n]"
  by (subst toString.simps) simp

lemma toString_large:
  "10 \<le> n \<Longrightarrow> toString n = toString (n div 10) @ [digit_char (n mod 10)]"
  by (subst toString.simps) simp

lemma toString_last: "toString n \<noteq> [] \<and> last (toString n) = digit_char (n mod 10)"
  by (cases "n < 10") (simp_all add: toString_small toString_large)

lemma length_toString: "0 < k \<Longrightarrow> length (toString n) \<le> k \<longleftrightarrow> n < 10 ^ k"
proof (induction n arbitrary: k rule: toString.induct)
  case (1 n)
  show ?case
  proof (cases "n < 10")
    case True
    have "(10::nat) ^ 1 \<le> 10 ^ k" using "1.prems" by (intro power_increasing) simp_all
    with True "1.prems" show ?thesis by (simp add: toString_small)
  next
    case False
    show ?thesis
    proof (cases k)
      case 0
      with "1.prems" show ?thesis by simp
    next
      case (Suc j)
      show ?thesis
      proof (cases j)
        case 0
        with Suc False toString_last[of "n div 10"] show ?thesis
          by (simp add: toString_large)
      next
        case (Suc i)
        with "1.IH"[OF False, of j] have "length (toString (n div 10)) \<le> j \<longleftrightarrow> n div 10 < 10 ^ j"
          by simp
        moreover have "n div 10 < 10 ^ j \<longleftrightarrow> n < 10 ^ Suc j"
          by (simp add: less_mult_imp_div_less div_less_iff_less_mult mult.commute)
        ultimately show ?thesis using False \<open>k = Suc j\<close> by (simp add: toString_large)
      qed
    qed
  qed
qed

lemma digit_char_inj:
  assumes "a < 10" "b < 10" "digit_char a = digit_char b"
  shows "a = b"
proof -
  have "distinct ''0123456789''" by simp
  moreover have "a < length ''0123456789''" "b < length ''0123456789''" using assms by simp_all
  ultimately show ?thesis
    using assms(3) unfolding digit_char_def by (simp only: nth_eq_iff_index_eq)
qed

lemma digit_char_cases:
  "d < (10::nat) \<Longrightarrow>
     d = 0 \<or> d = 1 \<or> d = 2 \<or> d = 3 \<or> d = 4 \<or> d = 5 \<or> d = 6 \<or> d = 7 \<or> d = 8 \<or> d = 9"
  by arith

lemma digit_char_digit: "d < 10 \<Longrightarrow> is_digit (digit_char d)"
  unfolding digit_char_def is_digit_def by (rule nth_mem) simp

lemma digit_value_digit_char: "d < 10 \<Longrightarrow> digit_value (digit_char d) = d"
  by (drule digit_char_cases) (elim disjE; simp add: digit_value_def digit_char_def)

lemma toString_digits: "list_all is_digit (toString n)"
proof (induction n rule: toString.induct)
  case (1 n)
  show ?case
  proof (cases "n < 10")
    case True
    with digit_char_digit[of n] show ?thesis by (simp add: toString_small)
  next
    case False
    with "1.IH" digit_char_digit[of "n mod 10"] show ?thesis
      by (simp add: toString_large)
  qed
qed

lemma parse_decimal_snoc: "parse_decimal (s @ [c]) = 10 * parse_decimal s + digit_value c"
  by (simp add: parse_decimal_def)

lemma parse_decimal_toString: "parse_decimal (toString n) = n"
proof (induction n rule: toString.induct)
  case (1 n)
  show ?case
  proof (cases "n < 10")
    case True
    then show ?thesis
      by (simp add: toString_small parse_decimal_def digit_value_digit_char)
  next
    case False
    with "1.IH" show ?thesis
      by (simp add: toString_large parse_decimal_snoc digit_value_digit_char)
  qed
qed

lemma parse_decimal_zeros: "parse_decimal (replicate k (CHR ''0'') @ s) = parse_decimal s"
proof -
  have zero: "digit_value (CHR ''0'') = 0" by (simp add: digit_value_def)
  have "foldl (\<lambda>n c. 10 * n + digit_value c) 0 (replicate k (CHR ''0'')) = 0"
    by (induction k) (simp_all add: zero)
  then show ?thesis by (simp add: parse_decimal_def)
qed

lemma slice_last_snoc: "slice_last (Suc k) (xs @ [c]) = slice_last k xs @ [c]"
  by (simp add: slice_last_def Suc_diff_le)

lemma parse_decimal_slice_last:
  "parse_decimal (slice_last k (toString n)) = n mod 10 ^ k"
proof (induction k arbitrary: n)
  case 0
  show ?case by (simp add: slice_last_def parse_decimal_def)
next
  case (Suc k)
  show ?case
  proof (cases "n < 10")
    case True
    have "(10::nat) \<le> 10 * 10 ^ k" by simp
    with True have "n < 10 * 10 ^ k" by (rule less_le_trans)
    with True show ?thesis
      by (simp add: toString_small slice_last_def parse_decimal_def digit_value_digit_char)
  next
    case False
    have "n mod (10 * 10 ^ k) = 10 * (n div 10 mod 10 ^ k) + n mod 10"
      by (rule mod_mult2_eq)
    with False Suc[of "n div 10"] show ?thesis
      by (simp add: toString_large slice_last_snoc parse_decimal_snoc digit_value_digit_char)
  qed
qed

lemma slice_last_append:
  "k \<le> length ys \<Longrightarrow> slice_last k (xs @ ys) = slice_last k ys"
  by (simp add: slice_last_def)

lemma slice_last_3:
  "xs \<noteq> [] \<Longrightarrow> slice_last 3 (xs @ [a, b]) = [last xs, a, b]"
proof -
  assume "xs \<noteq> []"
  then have "xs = butlast xs @ [last xs]" by simp
  then obtain ys where xs: "xs = ys @ [last xs]" ..
  have "slice_last 3 ((ys @ [last xs]) @ [a, b]) = [last xs, a, b]"
    by (simp add: slice_last_def)
  with xs show ?thesis by simp
qed

lemma padded_last_three:
  "slice_last 3 (padStart 3 (CHR ''0'') (toString n))
     = [digit_char (n div 100 mod 10), digit_char (n div 10 mod 10), digit_char (n mod 10)]"
proof -
  consider "n < 10" | "10 \<le> n" "n < 100" | "100 \<le> n" by linarith
  then show ?thesis
  proof cases
    case 1
    then show ?thesis
      by (simp add: toString_small padStart_def slice_last_def digit_char_def replicate_unfold)
  next
    case 2
    then have "n div 10 < 10" by simp
    with 2 show ?thesis
      by (simp add: toString_large toString_small padStart_def slice_last_def digit_char_def
            replicate_unfold)
  next
    case 3
    then have a: "10 \<le> n" and b: "10 \<le> n div 10" by simp_all
    have t: "toString n = toString (n div 100) @ [digit_char (n div 10 mod 10), digit_char (n mod 10)]"
      using div_mult2_eq[of n 10 10] by (simp add: toString_large[OF a] toString_large[OF b])
    have "\<not> n < 10 ^ 2" using 3 by simp
    then have "\<not> length (toString n) \<le> 2" by (simp add: length_toString)
    then have "padStart 3 (CHR ''0'') (toString n) = toString n"
      by (simp add: padStart_def)
    with t toString_last[of "n div 100"] show ?thesis
      by (simp add: slice_last_3)
  qed
qed

lemma length_padStart: "length (padStart w c s) = max w (length s)"
  by (simp add: padStart_def)

lemma gen_orderNumber_last_three:
  "slice_last 3 (gen_orderNumber now count)
     = [digit_char (Suc count div 100 mod 10), digit_char (Suc count div 10 mod 10),
        digit_char (Suc count mod 10)]"
proof -
  have "slice_last 3 (gen_orderNumber now count)
          = slice_last 3 (padStart 3 (CHR ''0'') (toString (count + 1)))"
    unfolding gen_orderNumber_def
    by (simp only: append_assoc[symmetric] slice_last_append length_padStart max.cobounded1)
  then show ?thesis by (simp add: padded_last_three)
qed

lemma gen_orderNumber_consecutive:
  "gen_orderNumber t1 count \<noteq> gen_orderNumber t2 (Suc count)"
proof
  assume "gen_orderNumber t1 count = gen_orderNumber t2 (Suc count)"
  then have "slice_last 3 (gen_orderNumber t1 count) = slice_last 3 (gen_orderNumber t2 (Suc count))"
    by simp
  then have d: "digit_char (Suc count div 100 mod 10) = digit_char (Suc (Suc count) div 100 mod 10)"
    "digit_char (Suc count div 10 mod 10) = digit_char (Suc (Suc count) div 10 mod 10)"
    "digit_char (Suc count mod 10) = digit_char (Suc (Suc count) mod 10)"
    by (simp_all add: gen_orderNumber_last_three)
  have "Suc count mod 10 = Suc (Suc count) mod 10"
    by (rule digit_char_inj[OF _ _ d(3)]) simp_all
  then show False by (simp add: mod_Suc[of "Suc count"] split: if_splits)
qed

lemma length_clock_part:
  assumes "100000 \<le> now"
  shows "length (slice_last 6 (toString now)) = 6"
proof -
  have "\<not> now < 10 ^ 5" using assms by simp
  then have "\<not> length (toString now) \<le> 5" by (simp add: length_toString)
  then show ?thesis by (simp add: slice_last_def)
qed

lemma gen_orderNumber_parts:
  assumes "100000 \<le> now"
  shows "take 2 (gen_orderNumber now count) = ''CA''"
    "take 6 (drop 2 (gen_orderNumber now count)) = slice_last 6 (toString now)"
    "drop 8 (gen_orderNumber now count) = padStart 3 (CHR ''0'') (toString (count + 1))"
    "drop 2 (gen_orderNumber now count)
       = slice_last 6 (toString now) @ padStart 3 (CHR ''0'') (toString (count + 1))"
  using length_clock_part[OF assms] by (simp_all add: gen_orderNumber_def)

lemma gen_orderNumber_length:
  assumes "100000 \<le> now"
  shows "length (gen_orderNumber now count) = 8 + max 3 (length (toString (count + 1)))"
  using length_clock_part[OF assms] by (simp add: gen_orderNumber_def length_padStart)

lemma gen_orderNumber_width:
  assumes "100000 \<le> now" and "3 \<le> k"
  shows "length (gen_orderNumber now count) \<le> 8 + k \<longleftrightarrow> count + 1 < 10 ^ k"
proof -
  from assms(2) have "0 < k" by simp
  from length_toString[OF this, of "count + 1"] assms(2) gen_orderNumber_length[OF assms(1)]
  show ?thesis by simp
qed

lemma create_order_number:
  assumes "create_order e now body store = (Inr r, store')"
  shows "\<exists>ord. store' = store @ [ord] \<and> orderNumber ord = gen_orderNumber now (length store)
           \<and> r_orderNumber r = orderNumber ord \<and> orderNumber ord \<notin> set (map orderNumber store)"
proof -
  from assms obtain its sub vis cust addr instr doc where
    "orderNumber (pre_save now (length store) doc) \<notin> set (map orderNumber store)"
    "store' = store @ [pre_save now (length store) doc]"
    "r = \<lparr>r_orderNumber = orderNumber (pre_save now (length store) doc),
          r_total = total (pre_save now (length store) doc),
          r_estimatedDeliveryTime = estimatedDeliveryTime (pre_save now (length store) doc),
          r_status = status (pre_save now (length store) doc)\<rparr>"
    by (rule create_order_created)
  then show ?thesis
    by (intro exI[of _ "pre_save now (length store) doc"]) (simp add: pre_save_fields)
qed

text \<open>
  C5, as the hook has it.  When the clock has six digits or more, the order number is \<open>CA\<close>
  followed by decimal digits only: first six digits that denote the clock modulo
  1000000, that is the last six digits of the clock, then the digits of the sequence
  component, the number of stored orders plus one, padded with zeros to at least three
  digits.  So the number has at least 11 characters, \<open>8 + k\<close> characters are enough exactly
  when the sequence component is below \<open>10^k\<close> (for \<open>k\<close> from 3 on); it has 11 characters
  while the sequence component is below 1000 and more from 1000 on.  The numbers generated
  for consecutive counts differ whatever the clock shows; a created order is appended with
  the number generated from the size of the collection; and two successful creations in
  sequence receive distinct numbers.  The width is not fixed: with 999 orders stored the
  number has 12 characters (the counterexample).
\<close>

theorem order_number_format:
  "(100000 \<le> now \<longrightarrow>
       take 2 (gen_orderNumber now count) = ''CA''
     \<and> list_all is_digit (drop 2 (gen_orderNumber now count))
     \<and> parse_decimal (take 6 (drop 2 (gen_orderNumber now count))) = now mod 1000000
     \<and> parse_decimal (drop 8 (gen_orderNumber now count)) = count + 1
     \<and> 11 \<le> length (gen_orderNumber now count)
     \<and> (\<forall>k. 3 \<le> k \<longrightarrow> (length (gen_orderNumber now count) \<le> 8 + k) = (count + 1 < 10 ^ k))
     \<and> (count + 1 < 1000 \<longrightarrow> length (gen_orderNumber now count) = 11)
     \<and> (1000 \<le> count + 1 \<longrightarrow> 11 < length (gen_orderNumber now count)))
   \<and> gen_orderNumber now count \<noteq> gen_orderNumber now' (Suc count)
   \<and> (\<forall>r store'. create_order e now body store = (Inr r, store')
        \<longrightarrow> (\<exists>ord. store' = store @ [ord]
               \<and> orderNumber ord = gen_orderNumber now (length store)
               \<and> r_orderNumber r = orderNumber ord))
   \<and> (\<forall>r store' r' store''. create_order e now body store = (Inr r, store')
          \<and> create_order e' now' body' store' = (Inr r', store'')
        \<longrightarrow> r_orderNumber r \<noteq> r_orderNumber r')"
proof (intro conjI allI impI)
  assume now: "100000 \<le> now"
  note parts = gen_orderNumber_parts[OF now, of count]
  show "take 2 (gen_orderNumber now count) = ''CA''" by (rule parts(1))
  have "list_all is_digit (slice_last 6 (toString now))"
    using toString_digits[of now] unfolding slice_last_def list_all_iff
    by (meson in_set_dropD)
  moreover have "list_all is_digit
      (padStart 3 (CHR ''0'') (toString (count + 1)))"
  proof -
    have "is_digit (CHR ''0'')" by (simp add: is_digit_def)
    with toString_digits[of "count + 1"] show ?thesis
      by (auto simp: padStart_def list_all_iff)
  qed
  ultimately show "list_all is_digit (drop 2 (gen_orderNumber now count))"
    by (simp only: parts(4) list_all_append)
  have "parse_decimal (slice_last 6 (toString now)) = now mod 10 ^ 6"
    by (rule parse_decimal_slice_last)
  then show "parse_decimal (take 6 (drop 2 (gen_orderNumber now count))) = now mod 1000000"
    by (simp add: parts(2))
  show "parse_decimal (drop 8 (gen_orderNumber now count)) = count + 1"
    by (simp only: parts(3) padStart_def parse_decimal_zeros parse_decimal_toString)
  show "11 \<le> length (gen_orderNumber now count)"
    by (simp add: gen_orderNumber_length[OF now])
  have w3: "length (gen_orderNumber now count) \<le> 8 + 3 \<longleftrightarrow> count + 1 < 10 ^ 3"
    by (rule gen_orderNumber_width[OF now]) simp
  {
    assume "count + 1 < 1000"
    with w3 gen_orderNumber_length[OF now, of count]
    show "length (gen_orderNumber now count) = 11" by simp
  }
  {
    assume "1000 \<le> count + 1"
    with w3 show "11 < length (gen_orderNumber now count)" by simp
  }
  {
    fix k :: nat
    assume "3 \<le> k"
    from gen_orderNumber_width[OF now this]
    show "(length (gen_orderNumber now count) \<le> 8 + k) = (count + 1 < 10 ^ k)" .
  }
next
  show "gen_orderNumber now count \<noteq> gen_orderNumber now' (Suc count)"
    by (rule gen_orderNumber_consecutive)
next
  fix r store'
  assume "create_order e now body store = (Inr r, store')"
  from create_order_number[OF this]
  show "\<exists>ord. store' = store @ [ord] \<and> orderNumber ord = gen_orderNumber now (length store)
           \<and> r_orderNumber r = orderNumber ord" by blast
next
  fix r store' r' store''
  assume h: "create_order e now body store = (Inr r, store')
          \<and> create_order e' now' body' store' = (Inr r', store'')"
  from h create_order_number[of e now body store r store']
  obtain ord where 1: "store' = store @ [ord]" "r_orderNumber r = gen_orderNumber now (length store)"
    by auto
  from h create_order_number[of e' now' body' store' r' store'']
  obtain ord' where 2: "r_orderNumber r' = gen_orderNumber now' (length store')"
    by auto
  from 1 2 gen_orderNumber_consecutive[of now "length store" now']
  show "r_orderNumber r \<noteq> r_orderNumber r'" by simp
qed

theorem order_number_format_witness:
  "take 2 (gen_orderNumber 1700000000000 0) = ''CA''
   \<and> parse_decimal (take 6 (drop 2 (gen_orderNumber 1700000123456 0))) = 123456
   \<and> parse_decimal (drop 8 (gen_orderNumber 1700000000000 0)) = 1
   \<and> length (gen_orderNumber 1700000000000 0) = 11
   \<and> 11 < length (gen_orderNumber 1700000000000 999)
   \<and> fst (create_order demo_env 1700000000500 (demo_request (JNum (Fin 4)))
            [demo_order 2 160 30 190])
       = Inr \<lparr>r_orderNumber = ''CA000500002'', r_total = Fin 320,
              r_estimatedDeliveryTime = Some 1700002700500, r_status = ''pending''\<rparr>
   \<and> r_orderNumber (demo_receipt 190) \<noteq> ''CA000500002''"
proof -
  have two: "create_order demo_env 1700000000000 (demo_request (JNum (Fin 2))) []
     = (Inr (demo_receipt 190), [demo_order 2 160 30 190])"
    by (rule demo_create(1))
  have next_one: "fst (create_order demo_env 1700000000500 (demo_request (JNum (Fin 4)))
       [demo_order 2 160 30 190])
       = Inr \<lparr>r_orderNumber = ''CA000500002'', r_total = Fin 320,
              r_estimatedDeliveryTime = Some 1700002700500, r_status = ''pending''\<rparr>"
    by (simp add: run_defs)
  then have pair: "create_order demo_env 1700000000500 (demo_request (JNum (Fin 4)))
       [demo_order 2 160 30 190]
     = (Inr \<lparr>r_orderNumber = ''CA000500002'', r_total = Fin 320,
              r_estimatedDeliveryTime = Some 1700002700500, r_status = ''pending''\<rparr>,
        snd (create_order demo_env 1700000000500 (demo_request (JNum (Fin 4)))
          [demo_order 2 160 30 190]))"
    by (metis prod.collapse)
  note inst = order_number_format[of 1700000000000 0 1700000000500 demo_env
        "demo_request (JNum (Fin 2))" "[]" demo_env "demo_request (JNum (Fin 4))"]
  from inst have parts: "take 2 (gen_orderNumber 1700000000000 0) = ''CA''"
    "parse_decimal (drop 8 (gen_orderNumber 1700000000000 0)) = 1"
    "length (gen_orderNumber 1700000000000 0) = 11"
    by simp_all
  from order_number_format[of 1700000123456 0]
  have clock: "parse_decimal (take 6 (drop 2 (gen_orderNumber 1700000123456 0))) = 123456"
    by simp
  from order_number_format[of 1700000000000 999]
  have wide: "11 < length (gen_orderNumber 1700000000000 999)"
    by simp
  from inst have "\<forall>r store' r' store''.
         create_order demo_env 1700000000000 (demo_request (JNum (Fin 2))) [] = (Inr r, store') \<and>
         create_order demo_env 1700000000500 (demo_request (JNum (Fin 4))) store' = (Inr r', store'')
         \<longrightarrow> r_orderNumber r \<noteq> r_orderNumber r'"
    by (elim conjE)
  with two pair
  have "r_orderNumber (demo_receipt 190)
          \<noteq> r_orderNumber \<lparr>r_orderNumber = ''CA000500002'', r_total = Fin 320,
              r_estimatedDeliveryTime = Some 1700002700500, r_status = ''pending''\<rparr>"
    by blast
  with parts clock wide next_one show ?thesis by simp
qed

theorem order_number_width_counterexample:
  "gen_orderNumber 1700000000000 0 = ''CA000000001''
   \<and> gen_orderNumber 1700000000000 999 = ''CA0000001000''
   \<and> length (gen_orderNumber 1700000000000 999) \<noteq> length (gen_orderNumber 1700000000000 0)"
  by (simp add: gen_orderNumber_def toString.simps slice_last_def padStart_def digit_char_def
        replicate_unfold)

section \<open>Status transitions\<close>

lemma demo_find:
  "find_order ''CA000000001'' [demo_order q s f t] = Some (demo_order q s f t)"
  "find_order ''CA999999999'' [demo_order q s f t] = None"
  by (simp_all add: find_order_def demo_order_def demo_order_of_def)

lemma demo_order_fields:
  "orderNumber (demo_order q s f t) = ''CA000000001''"
  "createdAt (demo_order q s f t) = 1700000000000"
  "updatedAt (demo_order q s f t) = 1700000000000"
  "actualDeliveryTime (demo_order q s f t) = None"
  "total (demo_order q s f t) = Fin t"
  by (simp_all add: demo_order_def demo_order_of_def)

lemma findOneAndUpdate_None:
  "find_order n store = None \<Longrightarrow> findOneAndUpdate n f store = None"
  by (induction store) (auto simp: find_order_def split: if_splits)

lemma findOneAndUpdate_Some:
  assumes "find_order n store = Some ord"
  shows "\<exists>pre post. store = pre @ ord # post \<and> (\<forall>x\<in>set pre. orderNumber x \<noteq> n)
           \<and> orderNumber ord = n
           \<and> findOneAndUpdate n f store = Some (f ord, pre @ f ord # post)"
  using assms
proof (induction store)
  case Nil
  then show ?case by (simp add: find_order_def)
next
  case (Cons x rest)
  show ?case
  proof (cases "orderNumber x = n")
    case True
    with Cons.prems have "x = ord" by (simp add: find_order_def)
    with True show ?thesis by (intro exI[of _ "[]"] exI[of _ rest]) simp
  next
    case False
    with Cons.prems have "find_order n rest = Some ord" by (simp add: find_order_def)
    from Cons.IH[OF this] obtain pre post where
      "rest = pre @ ord # post" "\<forall>x\<in>set pre. orderNumber x \<noteq> n" "orderNumber ord = n"
      "findOneAndUpdate n f rest = Some (f ord, pre @ f ord # post)" by blast
    with False show ?thesis by (intro exI[of _ "x # pre"] exI[of _ post]) simp
  qed
qed

lemma find_order_split:
  assumes "\<forall>x\<in>set pre. orderNumber x \<noteq> n" and "orderNumber u = n"
  shows "find_order n (pre @ u # post) = Some u"
  using assms by (induction pre) (simp_all add: find_order_def)

lemma update_data_fields:
  "orderNumber (update_data s now ord) = orderNumber ord"
  "status (update_data s now ord) = s"
  "actualDeliveryTime (update_data s now ord)
     = (if s = ''delivered'' then Some now else actualDeliveryTime ord)"
  "createdAt (update_data s now ord) = createdAt ord"
  "updatedAt (update_data s now ord) = updatedAt ord"
  "subtotal (update_data s now ord) = subtotal ord"
  "deliveryFee (update_data s now ord) = deliveryFee ord"
  "total (update_data s now ord) = total ord"
  "items (update_data s now ord) = items ord"
  "customer (update_data s now ord) = customer ord"
  "deliveryAddress (update_data s now ord) = deliveryAddress ord"
  "paymentMethod (update_data s now ord) = paymentMethod ord"
  "specialInstructions (update_data s now ord) = specialInstructions ord"
  "estimatedDeliveryTime (update_data s now ord) = estimatedDeliveryTime ord"
  by (simp_all add: update_data_def)

lemma update_status_found:
  assumes "\<not> nullish body" and "prop_of body ''status'' = JStr s" and "s \<in> set validStatuses"
    and "find_order n store = Some ord"
  shows "\<exists>pre post. store = pre @ ord # post \<and> (\<forall>x\<in>set pre. orderNumber x \<noteq> n)
           \<and> orderNumber ord = n
           \<and> update_status now n body store
               = (Inr (update_data s now ord), pre @ update_data s now ord # post)"
proof -
  from findOneAndUpdate_Some[OF assms(4), of "update_data s now"] obtain pre post where
    "store = pre @ ord # post" "\<forall>x\<in>set pre. orderNumber x \<noteq> n" "orderNumber ord = n"
    "findOneAndUpdate n (update_data s now) store
       = Some (update_data s now ord, pre @ update_data s now ord # post)" by blast
  with assms(1-3) show ?thesis
    by (intro exI[of _ pre] exI[of _ post]) (simp add: update_status_def)
qed


lemma update_status_frame:
  assumes "update_status now n body store = (res, store')"
  shows "length store' = length store
     \<and> (\<forall>i<length store. orderNumber (store' ! i) = orderNumber (store ! i)
           \<and> subtotal (store' ! i) = subtotal (store ! i)
           \<and> deliveryFee (store' ! i) = deliveryFee (store ! i)
           \<and> total (store' ! i) = total (store ! i)
           \<and> items (store' ! i) = items (store ! i)
           \<and> customer (store' ! i) = customer (store ! i)
           \<and> deliveryAddress (store' ! i) = deliveryAddress (store ! i)
           \<and> createdAt (store' ! i) = createdAt (store ! i)
           \<and> updatedAt (store' ! i) = updatedAt (store ! i))"
proof -
  have frame: "length rest' = length rest
     \<and> (\<forall>i<length rest. orderNumber (rest' ! i) = orderNumber (rest ! i)
           \<and> subtotal (rest' ! i) = subtotal (rest ! i)
           \<and> deliveryFee (rest' ! i) = deliveryFee (rest ! i)
           \<and> total (rest' ! i) = total (rest ! i)
           \<and> items (rest' ! i) = items (rest ! i)
           \<and> customer (rest' ! i) = customer (rest ! i)
           \<and> deliveryAddress (rest' ! i) = deliveryAddress (rest ! i)
           \<and> createdAt (rest' ! i) = createdAt (rest ! i)
           \<and> updatedAt (rest' ! i) = updatedAt (rest ! i))"
    if "findOneAndUpdate n (update_data s now) rest = Some (u, rest')" for s rest u rest'
    using that
  proof (induction rest arbitrary: u rest')
    case Nil
    then show ?case by simp
  next
    case (Cons x xs)
    show ?case
    proof (cases "orderNumber x = n")
      case True
      with Cons.prems have "rest' = update_data s now x # xs" by auto
      then show ?thesis by (auto simp: nth_Cons update_data_fields split: nat.splits)
    next
      case False
      with Cons.prems obtain xs' where 1: "findOneAndUpdate n (update_data s now) xs = Some (u, xs')"
        and 2: "rest' = x # xs'"
        by (auto split: option.splits)
      from Cons.IH[OF 1] 2 show ?thesis by (auto simp: nth_Cons split: nat.splits)
    qed
  qed
  show ?thesis
  proof (cases "store' = store")
    case True
    then show ?thesis by simp
  next
    case False
    with assms obtain u where
      "findOneAndUpdate n (update_data (string_of (prop_of body ''status'')) now) store
         = Some (u, store')"
      by (auto simp: update_status_def split: if_splits option.splits)
    from frame[OF this] show ?thesis .
  qed
qed


lemma create_order_store:
  "snd (create_order e now body store) = store
   \<or> (\<exists>ord. snd (create_order e now body store) = store @ [ord] \<and> createdAt ord = now)"
proof (cases "create_order e now body store")
  case (Pair res store')
  show ?thesis
  proof (cases res)
    case (Inl err)
    with Pair create_order_failed[of e now body store err store'] show ?thesis by simp
  next
    case (Inr r)
    with Pair have ok: "create_order e now body store = (Inr r, store')" by simp
    then obtain its sub vis cust addr instr doc where
      doc: "new_order e now cust addr vis sub (delivery_fee sub) (js_add sub (delivery_fee sub))
              instr = Some doc"
      and st: "store' = store @ [pre_save now (length store) doc]"
      by (rule create_order_created)
    from new_order_fields(9)[OF doc] st Pair show ?thesis
      by (simp add: pre_save_fields)
  qed
qed

lemma update_status_createdAt:
  assumes "x \<in> set (snd (update_status now n body store))"
  shows "\<exists>y\<in>set store. createdAt x = createdAt y"
proof -
  obtain res store' where run: "update_status now n body store = (res, store')"
    by (cases "update_status now n body store")
  from assms run obtain i where i: "i < length store'" "x = store' ! i"
    by (auto simp: in_set_conv_nth)
  from update_status_frame[OF run] i have "i < length store"
    "createdAt (store' ! i) = createdAt (store ! i)" by simp_all
  with i show ?thesis by (intro bexI[of _ "store ! i"]) simp_all
qed

lemma step_createdAt:
  assumes "\<forall>x\<in>set store. createdAt x \<le> bound" and "now \<le> bound"
  shows "\<forall>x\<in>set (step now rq store). createdAt x \<le> bound"
proof (cases rq)
  case (PostOrder e body)
  with create_order_store[of e now body store] assms show ?thesis by auto
next
  case (GetOrder pop n)
  with assms show ?thesis by simp
next
  case (PutStatus n body)
  with update_status_createdAt[of _ now n body store] assms show ?thesis by fastforce
qed

lemma run_createdAt:
  assumes "\<forall>x\<in>set store. createdAt x \<le> bound" and "\<forall>p\<in>set h. fst p \<le> bound"
  shows "\<forall>x\<in>set (run h store). createdAt x \<le> bound"
  using assms
proof (induction h arbitrary: store)
  case Nil
  then show ?case by simp
next
  case (Cons p h)
  obtain now rq where p: "p = (now, rq)" by (cases p)
  from Cons.prems p have "\<forall>x\<in>set (step now rq store). createdAt x \<le> bound"
    by (intro step_createdAt) simp_all
  from Cons.IH[OF this] Cons.prems(2) p show ?case by simp
qed

lemma find_order_mem: "find_order n store = Some ord \<Longrightarrow> ord \<in> set store \<and> orderNumber ord = n"
  by (auto simp: find_order_def find_Some_iff)

text \<open>
  C6. For an existing order, a transition to \<open>delivered\<close> stores \<open>actualDeliveryTime = now\<close>,
  the clock reading of the request, and leaves \<open>createdAt\<close> as it was.  When the
  collection has been built from the empty collection by a history of requests, none of
  which read a later clock than the transition does, the stored delivery time is at least
  the \<open>createdAt\<close> of the order.  When the collection is the one that a creation has
  left and the order is the one it created, \<open>createdAt\<close> is the clock reading of that
  creation.  A transition to any other status of the enumeration leaves
  \<open>actualDeliveryTime\<close> as it was.
\<close>

theorem delivery_time:
  assumes "\<not> nullish body" and "find_order n store = Some ord"
  shows "(prop_of body ''status'' = JStr ''delivered''
          \<longrightarrow> (\<exists>u store'. update_status now n body store = (Inr u, store')
                 \<and> find_order n store' = Some u \<and> actualDeliveryTime u = Some now
                 \<and> createdAt u = createdAt ord
                 \<and> (\<forall>h. store = run h [] \<and> (\<forall>p\<in>set h. fst p \<le> now)
                      \<longrightarrow> (\<exists>t. actualDeliveryTime u = Some t \<and> createdAt u \<le> t))))
     \<and> (\<forall>e t body' store0 r. create_order e t body' store0 = (Inr r, store)
            \<and> r_orderNumber r = n
          \<longrightarrow> createdAt ord = t)
     \<and> (\<forall>s. prop_of body ''status'' = JStr s \<and> s \<in> set validStatuses \<and> s \<noteq> ''delivered''
          \<longrightarrow> (\<exists>u store'. update_status now n body store = (Inr u, store')
                 \<and> find_order n store' = Some u
                 \<and> actualDeliveryTime u = actualDeliveryTime ord))"
proof (intro conjI allI impI)
  fix e t body' store0 r
  assume h: "create_order e t body' store0 = (Inr r, store) \<and> r_orderNumber r = n"
  then have "create_order e t body' store0 = (Inr r, store)" by simp
  then obtain its sub vis cust addr instr doc where
    doc: "new_order e t cust addr vis sub (delivery_fee sub) (js_add sub (delivery_fee sub))
            instr = Some doc"
    and fresh: "orderNumber (pre_save t (length store0) doc) \<notin> set (map orderNumber store0)"
    and st: "store = store0 @ [pre_save t (length store0) doc]"
    and r: "r = \<lparr>r_orderNumber = orderNumber (pre_save t (length store0) doc),
          r_total = total (pre_save t (length store0) doc),
          r_estimatedDeliveryTime = estimatedDeliveryTime (pre_save t (length store0) doc),
          r_status = status (pre_save t (length store0) doc)\<rparr>"
    by (rule create_order_created)
  from h r have n: "orderNumber (pre_save t (length store0) doc) = n" by simp
  with fresh have "\<forall>x\<in>set store0. orderNumber x \<noteq> n" by (metis image_eqI list.set_map)
  from find_order_split[OF this n, of "[]"] st assms(2)
  have "ord = pre_save t (length store0) doc" by simp
  with new_order_fields(9)[OF doc] show "createdAt ord = t"
    by (simp add: pre_save_fields)
next
  assume h: "prop_of body ''status'' = JStr ''delivered''"
  have "''delivered'' \<in> set validStatuses" by (simp add: validStatuses_def)
  from update_status_found[OF assms(1) _ this assms(2), of now] h
  obtain pre post where "\<forall>x\<in>set pre. orderNumber x \<noteq> n" "orderNumber ord = n"
    "update_status now n body store
       = (Inr (update_data ''delivered'' now ord), pre @ update_data ''delivered'' now ord # post)"
    by blast
  moreover have "\<forall>hist. store = run hist [] \<and> (\<forall>p\<in>set hist. fst p \<le> now)
      \<longrightarrow> createdAt ord \<le> now"
  proof (intro allI impI)
    fix hist
    assume "store = run hist [] \<and> (\<forall>p\<in>set hist. fst p \<le> now)"
    with run_createdAt[of "[]" now hist]
    have "\<forall>x\<in>set store. createdAt x \<le> now" by simp
    with find_order_mem[OF assms(2)] show "createdAt ord \<le> now" by simp
  qed
  ultimately
  show "\<exists>u store'. update_status now n body store = (Inr u, store')
                 \<and> find_order n store' = Some u \<and> actualDeliveryTime u = Some now
                 \<and> createdAt u = createdAt ord
                 \<and> (\<forall>h. store = run h [] \<and> (\<forall>p\<in>set h. fst p \<le> now)
                      \<longrightarrow> (\<exists>t. actualDeliveryTime u = Some t \<and> createdAt u \<le> t))"
    using find_order_split[of pre n "update_data ''delivered'' now ord" post]
    by (simp add: update_data_fields)
next
  fix s
  assume h: "prop_of body ''status'' = JStr s \<and> s \<in> set validStatuses \<and> s \<noteq> ''delivered''"
  from update_status_found[OF assms(1) _ _ assms(2), of s now] h
  obtain pre post where "\<forall>x\<in>set pre. orderNumber x \<noteq> n" "orderNumber ord = n"
    "update_status now n body store
       = (Inr (update_data s now ord), pre @ update_data s now ord # post)"
    by blast
  with h find_order_split[of pre n "update_data s now ord" post]
  show "\<exists>u store'. update_status now n body store = (Inr u, store')
                 \<and> find_order n store' = Some u
                 \<and> actualDeliveryTime u = actualDeliveryTime ord"
    by (simp add: update_data_fields)
qed

theorem delivery_time_witness:
  "run [(1700000000000, PostOrder demo_env (demo_request (JNum (Fin 2))))] []
     = [demo_order 2 160 30 190]
   \<and> update_status 1700000060000 ''CA000000001'' (JObj [(''status'', JStr ''delivered'')])
      (run [(1700000000000, PostOrder demo_env (demo_request (JNum (Fin 2))))] [])
     = (Inr ((demo_order 2 160 30 190)
               \<lparr>status := ''delivered'', actualDeliveryTime := Some 1700000060000\<rparr>),
        [(demo_order 2 160 30 190)
           \<lparr>status := ''delivered'', actualDeliveryTime := Some 1700000060000\<rparr>])
   \<and> createdAt ((demo_order 2 160 30 190)
        \<lparr>status := ''delivered'', actualDeliveryTime := Some 1700000060000\<rparr>) = 1700000000000
   \<and> createdAt ((demo_order 2 160 30 190)
        \<lparr>status := ''delivered'', actualDeliveryTime := Some 1700000060000\<rparr>) \<le> 1700000060000
   \<and> update_status 1700000060000 ''CA000000001'' (JObj [(''status'', JStr ''preparing'')])
      [demo_order 2 160 30 190]
     = (Inr ((demo_order 2 160 30 190)\<lparr>status := ''preparing''\<rparr>),
        [(demo_order 2 160 30 190)\<lparr>status := ''preparing''\<rparr>])
   \<and> actualDeliveryTime ((demo_order 2 160 30 190)\<lparr>status := ''preparing''\<rparr>) = None"
proof -
  have hist: "run [(1700000000000, PostOrder demo_env (demo_request (JNum (Fin 2))))] []
     = [demo_order 2 160 30 190]"
    by (simp add: demo_create(1))
  have found: "find_order ''CA000000001''
      (run [(1700000000000, PostOrder demo_env (demo_request (JNum (Fin 2))))] [])
     = Some (demo_order 2 160 30 190)"
    by (simp only: hist demo_find)
  have body: "\<not> nullish (JObj [(''status'', JStr ''delivered'')])"
    "prop_of (JObj [(''status'', JStr ''delivered'')]) ''status'' = JStr ''delivered''"
    by simp_all
  from delivery_time[OF body(1) found, of 1700000060000] body(2)
  obtain u store' where u:
    "update_status 1700000060000 ''CA000000001'' (JObj [(''status'', JStr ''delivered'')])
       (run [(1700000000000, PostOrder demo_env (demo_request (JNum (Fin 2))))] [])
     = (Inr u, store')"
    "actualDeliveryTime u = Some 1700000060000"
    "createdAt u = createdAt (demo_order 2 160 30 190)"
    "\<forall>h. run [(1700000000000, PostOrder demo_env (demo_request (JNum (Fin 2))))] [] = run h []
           \<and> (\<forall>p\<in>set h. fst p \<le> 1700000060000)
         \<longrightarrow> (\<exists>t. actualDeliveryTime u = Some t \<and> createdAt u \<le> t)"
    by blast
  from delivery_time[OF body(1) found, of 1700000060000]
  have "\<forall>e t body' store0 r. create_order e t body' store0
            = (Inr r, run [(1700000000000, PostOrder demo_env (demo_request (JNum (Fin 2))))] [])
          \<and> r_orderNumber r = ''CA000000001''
        \<longrightarrow> createdAt (demo_order 2 160 30 190) = t"
    by (elim conjE)
  from this[rule_format, of demo_env 1700000000000 "demo_request (JNum (Fin 2))" "[]"
      "demo_receipt 190"]
  have created: "createdAt (demo_order 2 160 30 190) = 1700000000000"
    by (simp add: demo_create(1) demo_receipt_def)
  from u(4)[rule_format, of "[(1700000000000, PostOrder demo_env (demo_request (JNum (Fin 2))))]"]
  have later: "\<exists>t. actualDeliveryTime u = Some t \<and> createdAt u \<le> t" by simp
  have "update_status 1700000060000 ''CA000000001''
      (JObj [(''status'', JStr ''delivered'')]) [demo_order 2 160 30 190]
     = (Inr ((demo_order 2 160 30 190)
               \<lparr>status := ''delivered'', actualDeliveryTime := Some 1700000060000\<rparr>),
        [(demo_order 2 160 30 190)
           \<lparr>status := ''delivered'', actualDeliveryTime := Some 1700000060000\<rparr>])"
    by (simp add: update_status_def update_data_def validStatuses_def demo_order_fields)
  then have delivered: "update_status 1700000060000 ''CA000000001''
      (JObj [(''status'', JStr ''delivered'')])
      (run [(1700000000000, PostOrder demo_env (demo_request (JNum (Fin 2))))] [])
     = (Inr ((demo_order 2 160 30 190)
               \<lparr>status := ''delivered'', actualDeliveryTime := Some 1700000060000\<rparr>),
        [(demo_order 2 160 30 190)
           \<lparr>status := ''delivered'', actualDeliveryTime := Some 1700000060000\<rparr>])"
    by (simp only: hist)
  have other: "\<not> nullish (JObj [(''status'', JStr ''preparing'')])" by simp
  from delivery_time[OF other demo_find(1)[of 2 160 30 190], of 1700000060000]
  have "\<exists>u store'. update_status 1700000060000 ''CA000000001''
          (JObj [(''status'', JStr ''preparing'')]) [demo_order 2 160 30 190] = (Inr u, store')
        \<and> actualDeliveryTime u = actualDeliveryTime (demo_order 2 160 30 190)"
    by (simp add: validStatuses_def) blast
  have preparing: "update_status 1700000060000 ''CA000000001''
      (JObj [(''status'', JStr ''preparing'')]) [demo_order 2 160 30 190]
     = (Inr ((demo_order 2 160 30 190)\<lparr>status := ''preparing''\<rparr>),
        [(demo_order 2 160 30 190)\<lparr>status := ''preparing''\<rparr>])"
    by (simp add: update_status_def update_data_def validStatuses_def demo_order_fields)
  from u(1) delivered have "u = (demo_order 2 160 30 190)
      \<lparr>status := ''delivered'', actualDeliveryTime := Some 1700000060000\<rparr>"
    by simp
  with later have le: "createdAt ((demo_order 2 160 30 190)
        \<lparr>status := ''delivered'', actualDeliveryTime := Some 1700000060000\<rparr>) \<le> 1700000060000"
    by simp
  from created have created: "createdAt ((demo_order 2 160 30 190)
        \<lparr>status := ''delivered'', actualDeliveryTime := Some 1700000060000\<rparr>) = 1700000000000"
    by simp
  have unset: "actualDeliveryTime ((demo_order 2 160 30 190)\<lparr>status := ''preparing''\<rparr>) = None"
    by (simp add: demo_order_fields)
  from hist delivered created le preparing unset show ?thesis
    by (simp only: simp_thms)
qed

text \<open>
  C7. A status outside the enumeration is rejected with InvalidStatus (400) and the
  collection is unchanged; with a status of the enumeration, an unknown order number is
  rejected with NotFound (404), again without any change, and for an existing order the
  transition succeeds and stores the new status.
\<close>

theorem status_guard:
  assumes "\<not> nullish body"
  shows "((\<forall>s\<in>{''pending'', ''confirmed'', ''preparing'', ''out-for-delivery'', ''delivered'',
               ''cancelled''}. prop_of body ''status'' \<noteq> JStr s)
          \<longrightarrow> update_status now n body store = (Inl InvalidStatus, store)
              \<and> http_status InvalidStatus = 400)
     \<and> (\<forall>s\<in>{''pending'', ''confirmed'', ''preparing'', ''out-for-delivery'', ''delivered'',
               ''cancelled''}. prop_of body ''status'' = JStr s
          \<longrightarrow> (find_order n store = None
                \<longrightarrow> update_status now n body store = (Inl NotFound, store)
                    \<and> http_status NotFound = 404)
            \<and> (\<forall>ord. find_order n store = Some ord
                \<longrightarrow> (\<exists>u store'. update_status now n body store = (Inr u, store')
                       \<and> find_order n store' = Some u \<and> status u = s)))"
proof (intro conjI ballI allI impI)
  assume "\<forall>s\<in>{''pending'', ''confirmed'', ''preparing'', ''out-for-delivery'', ''delivered'',
               ''cancelled''}. prop_of body ''status'' \<noteq> JStr s"
  then have "\<not> includes_status (prop_of body ''status'')"
    by (cases "prop_of body ''status''") (auto simp: validStatuses_def)
  with assms show "update_status now n body store = (Inl InvalidStatus, store)"
    by (simp add: update_status_def)
next
  show "http_status InvalidStatus = 400" by simp
next
  fix s
  assume s: "s \<in> {''pending'', ''confirmed'', ''preparing'', ''out-for-delivery'', ''delivered'',
               ''cancelled''}" and eq: "prop_of body ''status'' = JStr s"
    and none: "find_order n store = None"
  from s have "s \<in> set validStatuses" by (simp add: validStatuses_def)
  with assms eq findOneAndUpdate_None[OF none]
  show "update_status now n body store = (Inl NotFound, store)"
    by (simp add: update_status_def)
next
  show "http_status NotFound = 404" by simp
next
  fix s ord
  assume s: "s \<in> {''pending'', ''confirmed'', ''preparing'', ''out-for-delivery'', ''delivered'',
               ''cancelled''}" and eq: "prop_of body ''status'' = JStr s"
    and some: "find_order n store = Some ord"
  from s have "s \<in> set validStatuses" by (simp add: validStatuses_def)
  from update_status_found[OF assms eq this some, of now]
  obtain pre post where "\<forall>x\<in>set pre. orderNumber x \<noteq> n" "orderNumber ord = n"
    "update_status now n body store
       = (Inr (update_data s now ord), pre @ update_data s now ord # post)"
    by blast
  with find_order_split[of pre n "update_data s now ord" post]
  show "\<exists>u store'. update_status now n body store = (Inr u, store')
          \<and> find_order n store' = Some u \<and> status u = s"
    by (simp add: update_data_fields)
qed

theorem status_guard_witness:
  "update_status 1700000060000 ''CA000000001'' (JObj [(''status'', JStr ''shipped'')])
      [demo_order 2 160 30 190] = (Inl InvalidStatus, [demo_order 2 160 30 190])
   \<and> update_status 1700000060000 ''CA999999999'' (JObj [(''status'', JStr ''confirmed'')])
      [demo_order 2 160 30 190] = (Inl NotFound, [demo_order 2 160 30 190])
   \<and> update_status 1700000060000 ''CA000000001'' (JObj [(''status'', JStr ''confirmed'')])
      [demo_order 2 160 30 190]
     = (Inr ((demo_order 2 160 30 190)\<lparr>status := ''confirmed''\<rparr>),
        [(demo_order 2 160 30 190)\<lparr>status := ''confirmed''\<rparr>])"
proof -
  from status_guard[where body = "JObj [(''status'', JStr ''shipped'')]"
      and now = 1700000060000 and n = "''CA000000001''" and store = "[demo_order 2 160 30 190]"]
  have a: "update_status 1700000060000 ''CA000000001'' (JObj [(''status'', JStr ''shipped'')])
      [demo_order 2 160 30 190] = (Inl InvalidStatus, [demo_order 2 160 30 190])"
    by simp
  from status_guard[where body = "JObj [(''status'', JStr ''confirmed'')]"
      and now = 1700000060000 and n = "''CA999999999''" and store = "[demo_order 2 160 30 190]"]
  have b: "update_status 1700000060000 ''CA999999999'' (JObj [(''status'', JStr ''confirmed'')])
      [demo_order 2 160 30 190] = (Inl NotFound, [demo_order 2 160 30 190])"
    by (simp add: demo_find)
  have c: "update_status 1700000060000 ''CA000000001'' (JObj [(''status'', JStr ''confirmed'')])
      [demo_order 2 160 30 190]
     = (Inr ((demo_order 2 160 30 190)\<lparr>status := ''confirmed''\<rparr>),
        [(demo_order 2 160 30 190)\<lparr>status := ''confirmed''\<rparr>])"
    by (simp add: update_status_def update_data_def validStatuses_def demo_order_fields)
  from a b c show ?thesis by simp
qed


text \<open>
  C9. After its creation an order is changed by the status transition only, which is to
  change \<open>status\<close>, \<open>actualDeliveryTime\<close> (when delivered) and \<open>updatedAt\<close> and nothing
  else; no order is deleted.  The lemma \<open>update_status_frame\<close> shows that the transition
  keeps every other field and removes nothing.  It does not refresh \<open>updatedAt\<close>, which the
  hook of the schema does on every save: an order created at 1700000000000 and confirmed at
  1700000060000 still has \<open>updatedAt = 1700000000000\<close>.
\<close>

theorem status_update_keeps_updatedAt:
  "create_order demo_env 1700000000000 (demo_request (JNum (Fin 2))) []
     = (Inr (demo_receipt 190), [demo_order 2 160 30 190])
   \<and> update_status 1700000060000 ''CA000000001'' (JObj [(''status'', JStr ''confirmed'')])
      [demo_order 2 160 30 190]
     = (Inr ((demo_order 2 160 30 190)\<lparr>status := ''confirmed''\<rparr>),
        [(demo_order 2 160 30 190)\<lparr>status := ''confirmed''\<rparr>])
   \<and> updatedAt ((demo_order 2 160 30 190)\<lparr>status := ''confirmed''\<rparr>) = 1700000000000"
proof -
  have "create_order demo_env 1700000000000 (demo_request (JNum (Fin 2))) []
     = (Inr (demo_receipt 190), [demo_order 2 160 30 190])"
    by (rule demo_create(1))
  moreover have "update_status 1700000060000 ''CA000000001''
      (JObj [(''status'', JStr ''confirmed'')]) [demo_order 2 160 30 190]
     = (Inr ((demo_order 2 160 30 190)\<lparr>status := ''confirmed''\<rparr>),
        [(demo_order 2 160 30 190)\<lparr>status := ''confirmed''\<rparr>])"
    by (simp add: update_status_def update_data_def validStatuses_def demo_order_fields)
  ultimately show ?thesis by (simp add: demo_order_fields)
qed

section \<open>Lookup by order number\<close>





text \<open>
  C10. For a stored order the projection has exactly the keys \<open>status\<close>,
  \<open>estimatedDeliveryTime\<close>, \<open>deliveryAddress\<close>, \<open>paymentMethod\<close>, \<open>items\<close>, \<open>subtotal\<close>,
  \<open>deliveryFee\<close> and \<open>totalAmount\<close>; the total is under \<open>totalAmount\<close> and there is no key
  \<open>total\<close> or \<open>customer\<close>; no value is \<open>undefined\<close> (which the serialisation would drop) once
  the delivery estimate is set, as the hook does for every order it saves; and the
  projection does not depend on the customer of the order.
\<close>

theorem lookup_fields:
  assumes "find_order n store = Some ord"
  shows "\<exists>view. get_order pop n store = Inr view
     \<and> map fst view = [''status'', ''estimatedDeliveryTime'', ''deliveryAddress'',
                       ''paymentMethod'', ''items'', ''subtotal'', ''deliveryFee'', ''totalAmount'']
     \<and> map_of view ''totalAmount'' = Some (JNum (total ord))
     \<and> map_of view ''total'' = None \<and> map_of view ''customer'' = None
     \<and> (estimatedDeliveryTime ord \<noteq> None \<longrightarrow> JUndef \<notin> snd ` set view)
     \<and> (\<forall>c pre post. store = pre @ ord # post \<and> (\<forall>x\<in>set pre. orderNumber x \<noteq> n)
          \<longrightarrow> get_order pop n (pre @ ord\<lparr>customer := c\<rparr> # post) = Inr view)"
proof -
  have "get_order pop n (pre @ ord\<lparr>customer := c\<rparr> # post) = Inr (order_view pop ord)"
    if "store = pre @ ord # post" "\<forall>x\<in>set pre. orderNumber x \<noteq> n" for c pre post
  proof -
    from assms have "orderNumber ord = n"
      by (auto simp: find_order_def find_Some_iff)
    with that(2) find_order_split[of pre n "ord\<lparr>customer := c\<rparr>" post]
    show ?thesis by (simp add: get_order_def order_view_def)
  qed
  moreover have "estimatedDeliveryTime ord \<noteq> None \<longrightarrow> JUndef \<notin> snd ` set (order_view pop ord)"
    by (auto simp: order_view_def date_json_def address_json_def)
  ultimately show ?thesis
    using assms
    by (intro exI[of _ "order_view pop ord"]) (simp add: get_order_def order_view_def)
qed

theorem lookup_fields_witness:
  "get_order (\<lambda>i. None) ''CA000000001'' [demo_order 2 160 30 190]
     = Inr (order_view (\<lambda>i. None) (demo_order 2 160 30 190))
   \<and> map fst (order_view (\<lambda>i. None) (demo_order 2 160 30 190))
       = [''status'', ''estimatedDeliveryTime'', ''deliveryAddress'', ''paymentMethod'',
          ''items'', ''subtotal'', ''deliveryFee'', ''totalAmount'']
   \<and> map_of (order_view (\<lambda>i. None) (demo_order 2 160 30 190)) ''totalAmount''
       = Some (JNum (Fin 190))"
  using lookup_fields[OF demo_find(1)[of 2 160 30 190], where pop = "\<lambda>i. None"]
  by (simp add: get_order_def demo_find) (simp add: order_view_def demo_order_def demo_order_of_def)

end
